theory Spec2Isabelle
  imports Main "HOL-Library.Word" "HOL-Library.Sublist"
begin

section \<open>Go library values used by main.go\<close>

text \<open>
  A Go \<open>error\<close> value is represented by its text (\<open>err.Error()\<close>); \<open>nil\<close> is
  \<open>None\<close> where an error is optional.
\<close>

type_synonym error = string

subsection \<open>Decimal rendering\<close>

definition digit :: "nat \<Rightarrow> char" where
  "digit d = ''0123456789'' ! d"

definition hexdigit :: "nat \<Rightarrow> char" where
  "hexdigit d = ''0123456789abcdef'' ! d"

text \<open>The decimal digits of a natural number, most significant first.\<close>

fun itoa :: "nat \<Rightarrow> string" where
  "itoa n = (if n < 10 then [digit n] else itoa (n div 10) @ [digit (n mod 10)])"

declare itoa.simps [simp del]

text \<open>The \<open>%d\<close> verb of package fmt on an \<open>int\<close>.\<close>

definition fmt_d :: "int \<Rightarrow> string" where
  "fmt_d i = (if i < 0 then ''-'' @ itoa (nat (- i)) else itoa (nat i))"

subsection \<open>strconv.Atoi\<close>

text \<open>
  \<open>strconv.Atoi(s)\<close> is \<open>ParseInt(s, 10, 0)\<close> with the result converted to \<open>int\<close>
  (64 bits on the platforms the service is built for): an optional sign, then decimal
  digits only; the loop of \<open>ParseUint\<close> reports a syntax error at the first byte that is
  not a digit and a range error as soon as the unsigned value leaves 64 bits; the signed
  range is checked afterwards.
\<close>

datatype NumErr = ErrSyntax | ErrRange

record NumError =
  Func :: string
  Num :: string
  Err :: NumErr

definition isDigit :: "char \<Rightarrow> bool" where
  "isDigit c = (48 \<le> (of_char c :: nat) \<and> (of_char c :: nat) \<le> 57)"

definition digitVal :: "char \<Rightarrow> nat" where
  "digitVal c = of_char c - 48"

definition maxUint64 :: nat where
  "maxUint64 = 18446744073709551615"

fun parseUintLoop :: "nat \<Rightarrow> string \<Rightarrow> NumErr + nat" where
  "parseUintLoop n [] = Inr n"
| "parseUintLoop n (c # cs) =
     (if \<not> isDigit c then Inl ErrSyntax
      else if n \<ge> maxUint64 div 10 + 1 then Inl ErrRange
      else (let n1 = n * 10 + digitVal c in
            if n1 > maxUint64 then Inl ErrRange else parseUintLoop n1 cs))"

definition ParseUint :: "string \<Rightarrow> NumErr + nat" where
  "ParseUint s = (if s = [] then Inl ErrSyntax else parseUintLoop 0 s)"

definition ParseInt :: "string \<Rightarrow> NumErr + int" where
  "ParseInt s =
     (if s = [] then Inl ErrSyntax
      else (let neg = (hd s = CHR ''-'');
                s1 = (if hd s = CHR ''+'' \<or> hd s = CHR ''-'' then tl s else s)
            in case ParseUint s1 of
                 Inl e \<Rightarrow> Inl e
               | Inr un \<Rightarrow>
                   if \<not> neg \<and> un \<ge> 2 ^ 63 then Inl ErrRange
                   else if neg \<and> un > 2 ^ 63 then Inl ErrRange
                   else Inr (if neg then - int un else int un)))"

definition Atoi :: "string \<Rightarrow> NumError + int" where
  "Atoi s = (case ParseInt s of
               Inl e \<Rightarrow> Inl \<lparr>Func = ''Atoi'', Num = s, Err = e\<rparr>
             | Inr i \<Rightarrow> Inr i)"

text \<open>The conversion \<open>uint32(x)\<close> of an \<open>int\<close>: the low 32 bits.\<close>

definition uint32 :: "int \<Rightarrow> 32 word" where
  "uint32 x = word_of_int x"

subsection \<open>Library functions taken as parameters\<close>

text \<open>
  Functions of the Go standard library and of the NFS client library that main.go calls
  and that are not written out here: \<open>strconv.Quote\<close> (the \<open>%q\<close> verb),
  \<open>time.ParseDuration\<close> (a duration is a number of nanoseconds), the JSON
  encoding of one \<open>nfs4.FileInfo\<close>, and what the SQLite driver and database/sql
  make of the text of a \<open>DATETIME\<close> column that is not in the form
  \<open>YYYY-MM-DD HH:MM:SS\<close> (the other timestamp layouts of the driver, the zero time
  for a text it cannot read).
\<close>

type_synonym Duration = int

record Time =
  Year :: int
  Month :: nat
  Day :: nat
  Hour :: nat
  Minute :: nat
  Second :: nat
  ZoneOffset :: int

record FileInfo =
  Name :: string
  IsDir :: bool
  Size :: "64 word"
  Mtime :: Time

record lib =
  Quote :: "string \<Rightarrow> string"
  ParseDuration :: "string \<Rightarrow> error + Duration"
  MarshalFileInfo :: "FileInfo \<Rightarrow> error + string"
  TimestampText :: "string \<Rightarrow> string"

definition NumError_text :: "lib \<Rightarrow> NumError \<Rightarrow> string" where
  "NumError_text L e =
     ''strconv.'' @ Func e @ '': parsing '' @ Quote L (Num e) @ '': '' @
     (case Err e of ErrSyntax \<Rightarrow> ''invalid syntax'' | ErrRange \<Rightarrow> ''value out of range'')"

section \<open>Configuration: the package-level variables and the start of main\<close>

text \<open>
  The \<open>var\<close> block of main.go reads the environment once; \<open>os.Getenv\<close> gives the
  empty string for a variable that is not set.
\<close>

record globals =
  server :: string
  share :: string
  listenPort :: string
  timeoutEnv :: string
  machineName :: string
  uidEnv :: string
  gidEnv :: string
  storagePathEnv :: string
  sqliteStoragePathEnv :: string
  podNameEnv :: string
  sqliteWriteIntervalEnv :: string
  sqliteReadIntervalEnv :: string

text \<open>The locals \<open>timeout\<close>, \<open>uid\<close> and \<open>gid\<close> that the handlers close over.\<close>

record config = globals +
  timeout :: Duration
  uid :: int
  gid :: int

definition orDefault :: "string \<Rightarrow> string \<Rightarrow> string" where
  "orDefault v d = (if v = [] then d else v)"

definition applyDefaults :: "globals \<Rightarrow> globals" where
  "applyDefaults g =
     g\<lparr>listenPort := orDefault (listenPort g) '':8080'',
       timeoutEnv := orDefault (timeoutEnv g) ''20s'',
       machineName := orDefault (machineName g) ''its-me'',
       sqliteWriteIntervalEnv := orDefault (sqliteWriteIntervalEnv g) ''1s'',
       sqliteReadIntervalEnv := orDefault (sqliteReadIntervalEnv g) ''10s''\<rparr>"

text \<open>
  The start of \<open>main\<close> up to the parsed identity values; \<open>Inl\<close> carries the message of
  \<open>log.Fatal\<close>, after which the process exits with status 1.
\<close>

definition main_init :: "lib \<Rightarrow> globals \<Rightarrow> string + config" where
  "main_init L g0 =
     (if server g0 = [] \<or> share g0 = []
      then Inl ''Must set NFS_SERVER and NFS_SHARE environment variables''
      else (let g = applyDefaults g0 in
        case ParseDuration L (timeoutEnv g) of
          Inl e \<Rightarrow> Inl (''timeout can not be parsed: '' @ e)
        | Inr t \<Rightarrow>
           (case Atoi (uidEnv g) of
              Inl e \<Rightarrow> Inl (''can not parse UID env variable: '' @ NumError_text L e)
            | Inr u \<Rightarrow>
               (case Atoi (gidEnv g) of
                  Inl e \<Rightarrow> Inl (''can not parse GID env variable: '' @ NumError_text L e)
                | Inr gi \<Rightarrow> Inr (globals.extend g (config.fields t u gi))))))"

text \<open>The identity parameters built by the \<open>/list\<close> handler on every request.\<close>

record AuthParams =
  Uid :: "32 word"
  Gid :: "32 word"
  MachineName :: string

definition authParams :: "config \<Rightarrow> AuthParams" where
  "authParams cfg =
     \<lparr>Uid = uint32 (uid cfg), Gid = uint32 (gid cfg), MachineName = machineName cfg\<rparr>"

section \<open>Time formatting\<close>

text \<open>
  A \<open>time.Time\<close> is represented by the civil fields that \<open>Format\<close> reads from
  it: the date, the clock and the zone offset in seconds east of UTC.
  \<open>appendInt\<close> is the helper of package time: a sign, then the decimal digits
  padded with zeros to the width.
\<close>

definition appendInt :: "int \<Rightarrow> nat \<Rightarrow> string" where
  "appendInt x width =
     (let ds = itoa (nat \<bar>x\<bar>) in
      (if x < 0 then ''-'' else []) @ replicate (width - length ds) (CHR ''0'') @ ds)"

text \<open>
  The zone element \<open>Z07:00\<close> of a layout: \<open>Z\<close> for offset 0, else the sign and
  the offset in hours and minutes; Go's integer division truncates towards zero.
\<close>

definition formatZone :: "int \<Rightarrow> string" where
  "formatZone offset =
     (if offset = 0 then ''Z''
      else (let zone = sgn offset * (\<bar>offset\<bar> div 60) in
            (if zone < 0 then ''-'' else ''+'') @
            appendInt (\<bar>zone\<bar> div 60) 2 @ '':'' @ appendInt (\<bar>zone\<bar> mod 60) 2))"

text \<open>\<open>t.Format(time.RFC3339)\<close>, the layout \<open>2006-01-02T15:04:05Z07:00\<close>.\<close>

definition Format_RFC3339 :: "Time \<Rightarrow> string" where
  "Format_RFC3339 t =
     appendInt (Year t) 4 @ ''-'' @ appendInt (int (Month t)) 2 @ ''-'' @
     appendInt (int (Day t)) 2 @ ''T'' @ appendInt (int (Hour t)) 2 @ '':'' @
     appendInt (int (Minute t)) 2 @ '':'' @ appendInt (int (Second t)) 2 @
     formatZone (ZoneOffset t)"

section \<open>Reading a timestamp back\<close>

text \<open>
  A reader of the date-time syntax of RFC 3339 without fractional seconds, written from
  the RFC's grammar (upper-case \<open>T\<close> and \<open>Z\<close>, a numeric offset \<open>+hh:mm\<close> or
  \<open>-hh:mm\<close>) with the range checks of a calendar date. It is the yardstick for
  "parseable": it belongs to no source file.
\<close>

definition atoiN :: "string \<Rightarrow> nat option" where
  "atoiN s = (if s \<noteq> [] \<and> list_all isDigit s
              then Some (foldl (\<lambda>n c. n * 10 + digitVal c) 0 s) else None)"

definition isLeap :: "nat \<Rightarrow> bool" where
  "isLeap y = (y mod 4 = 0 \<and> (y mod 100 \<noteq> 0 \<or> y mod 400 = 0))"

definition daysIn :: "nat \<Rightarrow> nat \<Rightarrow> nat" where
  "daysIn m y = (if m = 2 then (if isLeap y then 29 else 28)
                 else if m = 4 \<or> m = 6 \<or> m = 9 \<or> m = 11 then 30 else 31)"

definition parseZone :: "string \<Rightarrow> int option" where
  "parseZone z =
     (if z = ''Z'' then Some 0
      else if length z = 6 \<and> (z ! 0 = CHR ''+'' \<or> z ! 0 = CHR ''-'') \<and> z ! 3 = CHR '':''
      then (case (atoiN (take 2 (drop 1 z)), atoiN (drop 4 z)) of
              (Some h, Some m) \<Rightarrow>
                if h < 24 \<and> m < 60
                then Some ((if z ! 0 = CHR ''-'' then - 1 else 1) * (int (h * 60 + m) * 60))
                else None
            | _ \<Rightarrow> None)
      else None)"

definition Parse_RFC3339 :: "string \<Rightarrow> Time option" where
  "Parse_RFC3339 s =
     (if length s < 20 \<or> s ! 4 \<noteq> CHR ''-'' \<or> s ! 7 \<noteq> CHR ''-'' \<or> s ! 10 \<noteq> CHR ''T'' \<or>
         s ! 13 \<noteq> CHR '':'' \<or> s ! 16 \<noteq> CHR '':''
      then None
      else (case (atoiN (take 4 s), atoiN (take 2 (drop 5 s)), atoiN (take 2 (drop 8 s))) of
              (Some y, Some mo, Some d) \<Rightarrow>
                (case (atoiN (take 2 (drop 11 s)), atoiN (take 2 (drop 14 s)),
                       atoiN (take 2 (drop 17 s)), parseZone (drop 19 s)) of
                   (Some h, Some mi, Some se, Some z) \<Rightarrow>
                     if 1 \<le> mo \<and> mo \<le> 12 \<and> 1 \<le> d \<and> d \<le> daysIn mo y \<and>
                        h < 24 \<and> mi < 60 \<and> se < 60
                     then Some \<lparr>Year = int y, Month = mo, Day = d, Hour = h, Minute = mi,
                                Second = se, ZoneOffset = z\<rparr>
                     else None
                 | _ \<Rightarrow> None)
            | _ \<Rightarrow> None))"

text \<open>
  The times \<open>time.Now()\<close> gives in a zone whose offset is a whole number of
  minutes: a calendar date of the years 0 to 9999 and a clock time.
\<close>

definition validTime :: "Time \<Rightarrow> bool" where
  "validTime t =
     (0 \<le> Year t \<and> Year t \<le> 9999 \<and> 1 \<le> Month t \<and> Month t \<le> 12 \<and>
      1 \<le> Day t \<and> Day t \<le> daysIn (Month t) (nat (Year t)) \<and>
      Hour t < 24 \<and> Minute t < 60 \<and> Second t < 60 \<and>
      \<bar>ZoneOffset t\<bar> < 86400 \<and> ZoneOffset t mod 60 = 0)"

section \<open>encoding/json\<close>

text \<open>
  The string encoder of encoding/json with HTML escaping on, the default of
  \<open>json.NewEncoder\<close>: printable ASCII is copied except the quote, the backslash and
  \<open><\<close>, \<open>>\<close>, \<open>&\<close>; a byte that does not start a valid UTF-8 sequence becomes
  the escape of U+FFFD; U+2028 and U+2029 are escaped; other valid sequences are copied.
  Backspace and form feed have the short escapes of Go 1.22 and later (earlier releases
  wrote them with four hexadecimal digits).
\<close>

definition htmlSafe :: "nat \<Rightarrow> bool" where
  "htmlSafe b = (32 \<le> b \<and> b < 128 \<and> b \<noteq> 34 \<and> b \<noteq> 92 \<and> b \<noteq> 60 \<and> b \<noteq> 62 \<and> b \<noteq> 38)"

definition escapeByte :: "char \<Rightarrow> string" where
  "escapeByte c =
     (let b = (of_char c :: nat) in
      if b = 92 \<or> b = 34 then [CHR 0x5C, c]
      else if b = 8 then [CHR 0x5C, CHR ''b'']
      else if b = 12 then [CHR 0x5C, CHR ''f'']
      else if b = 10 then [CHR 0x5C, CHR ''n'']
      else if b = 13 then [CHR 0x5C, CHR ''r'']
      else if b = 9 then [CHR 0x5C, CHR ''t'']
      else [CHR 0x5C, CHR ''u'', CHR ''0'', CHR ''0'', hexdigit (b div 16), hexdigit (b mod 16)])"

definition RuneError :: nat where
  "RuneError = 0xFFFD"

text \<open>\<open>utf8.DecodeRune\<close> on bytes: the code point and the number of bytes read.\<close>

definition DecodeRune :: "nat list \<Rightarrow> nat \<times> nat" where
  "DecodeRune p =
     (case p of
        [] \<Rightarrow> (RuneError, 0)
      | s0 # rest \<Rightarrow>
         if s0 < 0x80 then (s0, 1)
         else if s0 < 0xC2 \<or> 0xF4 < s0 then (RuneError, 1)
         else (let sz = (if s0 < 0xE0 then 2 else if s0 < 0xF0 then 3 else (4::nat));
                   lo = (if s0 = 0xE0 then 0xA0 else if s0 = 0xF0 then 0x90 else 0x80);
                   hi = (if s0 = 0xED then 0x9F else if s0 = 0xF4 then 0x8F else 0xBF)
               in if length p < sz then (RuneError, 1)
                  else if rest ! 0 < lo \<or> hi < rest ! 0 then (RuneError, 1)
                  else if sz \<le> 2 then ((s0 mod 32) * 64 + rest ! 0 mod 64, 2)
                  else if rest ! 1 < 0x80 \<or> 0xBF < rest ! 1 then (RuneError, 1)
                  else if sz \<le> 3
                    then ((s0 mod 16) * 4096 + (rest ! 0 mod 64) * 64 + rest ! 1 mod 64, 3)
                  else if rest ! 2 < 0x80 \<or> 0xBF < rest ! 2 then (RuneError, 1)
                  else ((s0 mod 8) * 262144 + (rest ! 0 mod 64) * 4096 +
                        (rest ! 1 mod 64) * 64 + rest ! 2 mod 64, 4)))"

fun escapeString :: "string \<Rightarrow> string" where
  "escapeString [] = []"
| "escapeString (c # cs) =
     (if (of_char c :: nat) < 0x80
      then (if htmlSafe (of_char c) then [c] else escapeByte c) @ escapeString cs
      else (let d = DecodeRune (map of_char (take 4 (c # cs))) in
            if fst d = RuneError \<and> snd d = 1
              then [CHR 0x5C, CHR ''u'', CHR ''f'', CHR ''f'', CHR ''f'', CHR ''d''] @
                   escapeString cs
            else if fst d = 0x2028 \<or> fst d = 0x2029
              then [CHR 0x5C, CHR ''u'', CHR ''2'', CHR ''0'', CHR ''2'', hexdigit (fst d mod 16)] @
                   escapeString (drop (snd d - 1) cs)
            else take (snd d) (c # cs) @ escapeString (drop (snd d - 1) cs)))"

definition jsonString :: "string \<Rightarrow> string" where
  "jsonString s = [CHR 0x22] @ escapeString s @ [CHR 0x22]"

definition jsonField :: "string \<Rightarrow> string \<Rightarrow> string" where
  "jsonField k v = jsonString k @ '':'' @ v"

fun joinComma :: "string list \<Rightarrow> string" where
  "joinComma [] = []"
| "joinComma [x] = x"
| "joinComma (x # y # ys) = x @ '','' @ joinComma (y # ys)"

text \<open>The elements of a slice are encoded in order; the first failure is the result.\<close>

fun marshalElems :: "lib \<Rightarrow> FileInfo list \<Rightarrow> error + string list" where
  "marshalElems L [] = Inr []"
| "marshalElems L (f # fs) =
     (case MarshalFileInfo L f of
        Inl e \<Rightarrow> Inl e
      | Inr x \<Rightarrow> (case marshalElems L fs of Inl e \<Rightarrow> Inl e | Inr xs \<Rightarrow> Inr (x # xs)))"

section \<open>The HTTP response writer and the logger\<close>

text \<open>
  An \<open>http.ResponseWriter\<close>: the header map the handler edits, the status line once
  written (with the headers as they were then: later edits are not sent; a second
  \<open>WriteHeader\<close> is ignored), and the body bytes written so far. A \<open>Write\<close>
  before any \<open>WriteHeader\<close> sends status 200 first. The header key is taken as
  written: \<open>Content-Type\<close>, the one key the program sets, is in canonical form.
\<close>

record ResponseWriter =
  header :: "string \<rightharpoonup> string"
  wroteHeader :: "(nat \<times> (string \<rightharpoonup> string)) option"
  body :: string

definition newWriter :: ResponseWriter where
  "newWriter = \<lparr>header = Map.empty, wroteHeader = None, body = []\<rparr>"

definition Header_Set :: "string \<Rightarrow> string \<Rightarrow> ResponseWriter \<Rightarrow> ResponseWriter" where
  "Header_Set k v w = w\<lparr>header := (header w)(k \<mapsto> v)\<rparr>"

definition WriteHeader :: "nat \<Rightarrow> ResponseWriter \<Rightarrow> ResponseWriter" where
  "WriteHeader code w =
     (case wroteHeader w of
        None \<Rightarrow> w\<lparr>wroteHeader := Some (code, header w)\<rparr>
      | Some _ \<Rightarrow> w)"

definition Write :: "string \<Rightarrow> ResponseWriter \<Rightarrow> ResponseWriter" where
  "Write data w =
     (let w1 = (if wroteHeader w = None then WriteHeader 200 w else w)
      in w1\<lparr>body := body w1 @ data\<rparr>)"

text \<open>What the client receives: the status, one sent header, the body.\<close>

definition status :: "ResponseWriter \<Rightarrow> nat option" where
  "status w = map_option fst (wroteHeader w)"

definition sentHeader :: "ResponseWriter \<Rightarrow> string \<Rightarrow> string option" where
  "sentHeader w k = (case wroteHeader w of None \<Rightarrow> None | Some (_, h) \<Rightarrow> h k)"

datatype Level = LevelInfo | LevelError

datatype Value = StringValue string | IntValue int | ErrorValue error

record Record =
  level :: Level
  msg :: string
  attrs :: "(string \<times> Value) list"

text \<open>
  \<open>logger := slog.Default().With("pod_name", podNameEnv)\<close>: every record of the logger
  starts with that attribute.
\<close>

definition logger :: "config \<Rightarrow> Level \<Rightarrow> string \<Rightarrow> (string \<times> Value) list \<Rightarrow> Record" where
  "logger cfg lv m as =
     \<lparr>level = lv, msg = m, attrs = (''pod_name'', StringValue (podNameEnv cfg)) # as\<rparr>"

section \<open>The response envelope\<close>

text \<open>
  The struct \<open>response\<close>. Its four exported fields are the JSON envelope, each tagged
  \<open>omitempty\<close>; \<open>writer\<close> and \<open>err\<close> are not exported and never encoded. The
  logger field is the one logger of \<open>main\<close>; its records go to the log of the world.
\<close>

record response =
  Pod :: string
  Error :: string
  Message :: string
  Files :: "FileInfo list"
  writer :: ResponseWriter
  err :: "error option"

text \<open>\<open>&response{writer: w, logger: logger}\<close>: every other field has its zero value.\<close>

definition newResponse :: "ResponseWriter \<Rightarrow> response" where
  "newResponse w = \<lparr>Pod = [], Error = [], Message = [], Files = [], writer = w, err = None\<rparr>"

text \<open>
  \<open>json.Marshal\<close> of the struct: the fields in declaration order, a field left out when
  its string is empty or its slice has length 0.
\<close>

definition marshalResponse :: "lib \<Rightarrow> response \<Rightarrow> error + string" where
  "marshalResponse L r =
     (case marshalElems L (Files r) of
        Inl e \<Rightarrow> Inl e
      | Inr xs \<Rightarrow>
          Inr (''{'' @
               joinComma
                 ((if Pod r = [] then [] else [jsonField ''pod'' (jsonString (Pod r))]) @
                  (if Error r = [] then [] else [jsonField ''error'' (jsonString (Error r))]) @
                  (if Message r = [] then []
                   else [jsonField ''message'' (jsonString (Message r))]) @
                  (if Files r = [] then []
                   else [jsonField ''files'' (''['' @ joinComma xs @ '']'')])) @
               ''}''))"

text \<open>
  \<open>json.NewEncoder(w).Encode(v)\<close>: the encoding and a newline in one \<open>Write\<close>;
  nothing is written when the encoding fails.
\<close>

definition Encode :: "lib \<Rightarrow> response \<Rightarrow> error + string" where
  "Encode L r = (case marshalResponse L r of
                   Inl e \<Rightarrow> Inl e
                 | Inr data \<Rightarrow> Inr (data @ [CHR 0x0A]))"

section \<open>The world outside the process\<close>

text \<open>
  The local file system as \<open>os.WriteFile\<close> and \<open>os.ReadFile\<close> see it: the content
  of the regular files, and the paths at which a write or a read fails (a missing
  directory, permissions, an I/O error) with the error's text. A failed write is taken
  to leave the content as it was.
\<close>

record filesystem =
  fileContent :: "string \<rightharpoonup> string"
  writeError :: "string \<rightharpoonup> error"
  readError :: "string \<rightharpoonup> error"

datatype fsOp = OpWriteFile string string | OpReadFile string

text \<open>
  The NFS server as \<open>nfs4.NewNfsClient\<close> sees it: a connection attempt fails with an
  error or gives a client, whose \<open>GetFileList\<close> fails or lists a directory.
\<close>

type_synonym NfsClient = "string \<Rightarrow> error + FileInfo list"

record world =
  now :: Time
  fs :: filesystem
  fsOps :: "fsOp list"
  nfs :: "string \<Rightarrow> AuthParams \<Rightarrow> Duration \<Rightarrow> error + NfsClient"
  nfsOps :: "(string \<times> AuthParams) list"
  logs :: "Record list"

definition WriteFile :: "string \<Rightarrow> string \<Rightarrow> world \<Rightarrow> error option \<times> world" where
  "WriteFile name data wd =
     (let wd1 = wd\<lparr>fsOps := fsOps wd @ [OpWriteFile name data]\<rparr> in
      case writeError (fs wd) name of
        Some e \<Rightarrow> (Some e, wd1)
      | None \<Rightarrow> (None, wd1\<lparr>fs := (fs wd)\<lparr>fileContent := (fileContent (fs wd))(name \<mapsto> data)\<rparr>\<rparr>))"

definition ReadFile :: "string \<Rightarrow> world \<Rightarrow> (error + string) \<times> world" where
  "ReadFile name wd =
     (let wd1 = wd\<lparr>fsOps := fsOps wd @ [OpReadFile name]\<rparr> in
      case readError (fs wd) name of
        Some e \<Rightarrow> (Inl e, wd1)
      | None \<Rightarrow>
         (case fileContent (fs wd) name of
            None \<Rightarrow> (Inl (''open '' @ name @ '': no such file or directory''), wd1)
          | Some data \<Rightarrow> (Inr data, wd1)))"

definition NewNfsClient ::
  "string \<Rightarrow> AuthParams \<Rightarrow> Duration \<Rightarrow> world \<Rightarrow> (error + NfsClient) \<times> world" where
  "NewNfsClient srv auth tmo wd =
     (nfs wd srv auth tmo, wd\<lparr>nfsOps := nfsOps wd @ [(srv, auth)]\<rparr>)"

definition logTo :: "Record \<Rightarrow> world \<Rightarrow> world" where
  "logTo rec wd = wd\<lparr>logs := logs wd @ [rec]\<rparr>"

section \<open>Finalization and the handlers\<close>

text \<open>
  \<open>func (r *response) handle()\<close>, which every envelope handler defers: it runs after
  the handler body on every return path.
\<close>

definition handle :: "lib \<Rightarrow> config \<Rightarrow> response \<Rightarrow> world \<Rightarrow> response \<times> world" where
  "handle L cfg r0 wd0 =
     (let r1 = r0\<lparr>writer := Header_Set ''Content-Type'' ''application/json'' (writer r0)\<rparr>;
          r2 = r1\<lparr>Pod := podNameEnv cfg\<rparr>;
          (r3, wd1) =
            (case err r2 of
               Some e \<Rightarrow>
                 (r2\<lparr>Error := ''something went wrong'',
                     writer := WriteHeader 500 (writer r2)\<rparr>,
                  logTo (logger cfg LevelError e []) wd0)
             | None \<Rightarrow> (r2\<lparr>writer := WriteHeader 200 (writer r2)\<rparr>, wd0))
      in case Encode L r3 of
           Inl e \<Rightarrow>
             (r3, logTo (logger cfg LevelError ''can not JSON encode output''
                           [(''error'', ErrorValue e)]) wd1)
         | Inr data \<Rightarrow> (r3\<lparr>writer := Write data (writer r3)\<rparr>, wd1))"

text \<open>The request: the parsed query of its URL, in order.\<close>

record Request =
  query :: "(string \<times> string) list"

text \<open>\<open>r.URL.Query().Get(key)\<close>: the first value of the key, or the empty string.\<close>

definition Query_Get :: "Request \<Rightarrow> string \<Rightarrow> string" where
  "Query_Get req k = (case map_of (query req) k of None \<Rightarrow> [] | Some v \<Rightarrow> v)"

definition rootHandler :: "ResponseWriter \<Rightarrow> ResponseWriter" where
  "rootHandler w = WriteHeader 200 w"

text \<open>
  Each envelope handler begins with \<open>response := &response{writer: w, logger: logger}\<close>
  and \<open>defer response.handle()\<close>: the body of the handler fills the response and
  returns, then \<open>handle\<close> runs on what the body left.
\<close>

definition writeStorageBody :: "config \<Rightarrow> response \<Rightarrow> world \<Rightarrow> response \<times> world" where
  "writeStorageBody cfg r wd =
     (if storagePathEnv cfg = []
      then (r\<lparr>err := Some ''no storage path set via STORAGE_PATH env variable''\<rparr>, wd)
      else (let currentTime = Format_RFC3339 (now wd);
                (e, wd1) = WriteFile (storagePathEnv cfg) currentTime wd
            in case e of
                 Some e \<Rightarrow> (r\<lparr>err := Some (''error writing to file: '' @ e)\<rparr>, wd1)
               | None \<Rightarrow>
                   (r\<lparr>Message := ''current time written to store: '' @ currentTime\<rparr>, wd1)))"

definition writeStorage ::
  "lib \<Rightarrow> config \<Rightarrow> ResponseWriter \<Rightarrow> Request \<Rightarrow> world \<Rightarrow> response \<times> world" where
  "writeStorage L cfg w req wd =
     (let (r, wd1) = writeStorageBody cfg (newResponse w) wd in handle L cfg r wd1)"

definition readStorageBody :: "config \<Rightarrow> response \<Rightarrow> world \<Rightarrow> response \<times> world" where
  "readStorageBody cfg r wd =
     (if storagePathEnv cfg = []
      then (r\<lparr>err := Some ''no storage path set via STORAGE_PATH env variable''\<rparr>, wd)
      else (let (res, wd1) = ReadFile (storagePathEnv cfg) wd
            in case res of
                 Inl e \<Rightarrow> (r\<lparr>err := Some (''error reading from file: '' @ e)\<rparr>, wd1)
               | Inr content \<Rightarrow>
                   (r\<lparr>Message := ''last time written to store: '' @ content\<rparr>, wd1)))"

definition readStorage ::
  "lib \<Rightarrow> config \<Rightarrow> ResponseWriter \<Rightarrow> Request \<Rightarrow> world \<Rightarrow> response \<times> world" where
  "readStorage L cfg w req wd =
     (let (r, wd1) = readStorageBody cfg (newResponse w) wd in handle L cfg r wd1)"

definition listBody ::
  "lib \<Rightarrow> config \<Rightarrow> response \<Rightarrow> Request \<Rightarrow> world \<Rightarrow> response \<times> world" where
  "listBody L cfg r req wd =
     (let auth = authParams cfg;
          (res, wd1) = NewNfsClient (server cfg) auth (timeout cfg) wd
      in case res of
           Inl e \<Rightarrow> (r\<lparr>err := Some (''error creating NFS client: '' @ e)\<rparr>, wd1)
         | Inr client \<Rightarrow>
            (let path = (if Query_Get req ''path'' = [] then ''/'' else Query_Get req ''path'')
             in case client path of
                  Inl e \<Rightarrow>
                    (r\<lparr>err := Some (''Error reading dir '' @ Quote L path @ '': '' @ e)\<rparr>, wd1)
                | Inr entries \<Rightarrow> (r\<lparr>Files := entries\<rparr>, wd1)))"

definition listHandler ::
  "lib \<Rightarrow> config \<Rightarrow> ResponseWriter \<Rightarrow> Request \<Rightarrow> world \<Rightarrow> response \<times> world" where
  "listHandler L cfg w req wd =
     (let (r, wd1) = listBody L cfg (newResponse w) req wd in handle L cfg r wd1)"

text \<open>
  The three patterns registered with the envelope, and the request as the server runs
  it: the handler of the pattern, on a writer nothing has been written to.
\<close>

datatype endpoint = List | WriteStorage | ReadStorage

fun serve :: "lib \<Rightarrow> config \<Rightarrow> endpoint \<Rightarrow> Request \<Rightarrow> world \<Rightarrow> response \<times> world" where
  "serve L cfg List req wd = listHandler L cfg newWriter req wd"
| "serve L cfg WriteStorage req wd = writeStorage L cfg newWriter req wd"
| "serve L cfg ReadStorage req wd = readStorage L cfg newWriter req wd"

section \<open>The SQLite store\<close>

text \<open>
  The table \<open>entries\<close> of the schema: \<open>id INTEGER PRIMARY KEY AUTOINCREMENT\<close>,
  \<open>pod TEXT NOT NULL\<close>, \<open>ts DATETIME NOT NULL\<close>, \<open>payload TEXT\<close> (the only
  column that can hold NULL). The rows are kept in insertion order. With
  \<open>AUTOINCREMENT\<close> SQLite remembers the largest id ever used (\<open>seq\<close>, the row
  of \<open>sqlite_sequence\<close>), gives a new row an id one above it and above every id in the
  table, and refuses the insert once the largest 64-bit id has been used.
\<close>

record entry =
  entry_id :: int
  pod :: string
  ts :: string
  payload :: "string option"

record table =
  rows :: "entry list"
  seq :: int

definition maxRowid :: int where
  "maxRowid = 9223372036854775807"

text \<open>\<open>CREATE TABLE IF NOT EXISTS entries (...)\<close> on the database file as found.\<close>

definition createSchema :: "table option \<Rightarrow> table" where
  "createSchema st = (case st of None \<Rightarrow> \<lparr>rows = [], seq = 0\<rparr> | Some t \<Rightarrow> t)"

text \<open>
  \<open>INSERT INTO entries (pod, ts, payload) VALUES (?, datetime('now'), ?)\<close>. The value of
  \<open>datetime('now')\<close> and a failure of the statement (a locked database, an I/O
  error) come from the store; a failed statement changes nothing.
\<close>

definition largestRowid :: "table \<Rightarrow> int" where
  "largestRowid t = fold max (map entry_id (rows t)) (seq t)"

definition Exec_insert ::
  "string \<Rightarrow> string \<Rightarrow> string \<Rightarrow> error option \<Rightarrow> table \<Rightarrow> error option \<times> table" where
  "Exec_insert podName datetimeNow pl fault t =
     (case fault of
        Some e \<Rightarrow> (Some e, t)
      | None \<Rightarrow>
         if largestRowid t \<ge> maxRowid then (Some ''database or disk is full'', t)
         else (None,
               \<lparr>rows = rows t @
                  [\<lparr>entry_id = largestRowid t + 1, pod = podName, ts = datetimeNow,
                    payload = Some pl\<rparr>],
                seq = largestRowid t + 1\<rparr>))"

text \<open>\<open>SELECT ... FROM entries ORDER BY id DESC LIMIT 1\<close>: the row of the largest id.\<close>

fun lastById :: "entry list \<Rightarrow> entry option" where
  "lastById [] = None"
| "lastById (e # es) =
     (case lastById es of
        None \<Rightarrow> Some e
      | Some m \<Rightarrow> if entry_id m > entry_id e then Some m else Some e)"

text \<open>
  The statement of the read cycle,
  \<open>SELECT COUNT(*), (SELECT pod FROM entries ORDER BY id DESC LIMIT 1), (SELECT ts ...),
  (SELECT payload ...)\<close>. Its outer \<open>SELECT\<close> has no \<open>FROM\<close> clause, so
  \<open>COUNT(*)\<close> counts the one row of the result and is 1 whatever the table holds;
  each scalar subquery is NULL when it selects no row.
\<close>

definition QueryRow ::
  "error option \<Rightarrow> table \<Rightarrow> error + (int \<times> string option \<times> string option \<times> string option)" where
  "QueryRow fault t =
     (case fault of
        Some e \<Rightarrow> Inl e
      | None \<Rightarrow>
          Inr (1,
               map_option pod (lastById (rows t)),
               map_option ts (lastById (rows t)),
               (case lastById (rows t) of None \<Rightarrow> None | Some e \<Rightarrow> payload e)))"

definition scanNullError :: "nat \<Rightarrow> string \<Rightarrow> error" where
  "scanNullError i col =
     ''sql: Scan error on column index '' @ itoa i @ '', name '' @
     [CHR 0x22] @ ''(SELECT '' @ col @ '' FROM entries ORDER BY id DESC LIMIT 1)'' @ [CHR 0x22] @
     '': converting NULL to string is unsupported''"

text \<open>
  The column \<open>ts\<close> is declared \<open>DATETIME\<close>: the driver (go-sqlite3) does not hand
  its text on but reads it as a time, in UTC, after dropping a final \<open>Z\<close>, and
  database/sql writes a time into a \<open>string\<close> target in the layout RFC3339Nano, which
  for whole seconds is the layout RFC3339. The text form of \<open>datetime('now')\<close>,
  \<open>YYYY-MM-DD HH:MM:SS\<close>, is read here; every other text is left to the parameter
  \<open>TimestampText\<close>. The data source name is taken to be a path without a \<open>_loc\<close>
  parameter.
\<close>

definition trimZ :: "string \<Rightarrow> string" where
  "trimZ s = (if s \<noteq> [] \<and> last s = CHR ''Z'' then butlast s else s)"

definition parseDatetime :: "string \<Rightarrow> Time option" where
  "parseDatetime s =
     (if length s \<noteq> 19 \<or> s ! 4 \<noteq> CHR ''-'' \<or> s ! 7 \<noteq> CHR ''-'' \<or> s ! 10 \<noteq> CHR '' '' \<or>
         s ! 13 \<noteq> CHR '':'' \<or> s ! 16 \<noteq> CHR '':''
      then None
      else (case (atoiN (take 4 s), atoiN (take 2 (drop 5 s)), atoiN (take 2 (drop 8 s))) of
              (Some y, Some mo, Some d) \<Rightarrow>
                (case (atoiN (take 2 (drop 11 s)), atoiN (take 2 (drop 14 s)),
                       atoiN (drop 17 s)) of
                   (Some h, Some mi, Some se) \<Rightarrow>
                     if 1 \<le> mo \<and> mo \<le> 12 \<and> 1 \<le> d \<and> d \<le> daysIn mo y \<and>
                        h < 24 \<and> mi < 60 \<and> se < 60
                     then Some \<lparr>Year = int y, Month = mo, Day = d, Hour = h, Minute = mi,
                                Second = se, ZoneOffset = 0\<rparr>
                     else None
                 | _ \<Rightarrow> None)
            | _ \<Rightarrow> None))"

definition columnTimeText :: "lib \<Rightarrow> string \<Rightarrow> string" where
  "columnTimeText L s =
     (case parseDatetime (trimZ s) of
        Some t \<Rightarrow> Format_RFC3339 t
      | None \<Rightarrow> TimestampText L s)"

text \<open>
  \<open>Scan(&count, &lastPod, &lastTS, &lastPayload)\<close> into an \<open>int\<close> and three
  \<open>string\<close>s: database/sql refuses to convert NULL to a string.
\<close>

definition Scan ::
  "lib \<Rightarrow> int \<times> string option \<times> string option \<times> string option \<Rightarrow>
   error + (int \<times> string \<times> string \<times> string)" where
  "Scan L row =
     (case row of (count, p, t, pl) \<Rightarrow>
        (case p of
           None \<Rightarrow> Inl (scanNullError 1 ''pod'')
         | Some lastPod \<Rightarrow>
            (case t of
               None \<Rightarrow> Inl (scanNullError 2 ''ts'')
             | Some lastTS \<Rightarrow>
                (case pl of
                   None \<Rightarrow> Inl (scanNullError 3 ''payload'')
                 | Some lastPayload \<Rightarrow>
                     Inr (count, lastPod, columnTimeText L lastTS, lastPayload)))))"

section \<open>The probe loops of setupSqlite\<close>

text \<open>
  The beginning of \<open>setupSqlite\<close>: both intervals are parsed, the schema statement is
  run on the database file; an error here is fatal in \<open>main\<close>.
\<close>

definition setupSqlite ::
  "lib \<Rightarrow> string \<Rightarrow> string \<Rightarrow> error option \<Rightarrow> table option \<Rightarrow>
   error + (Duration \<times> Duration \<times> table)" where
  "setupSqlite L readIntervalEnv writeIntervalEnv schemaFault st =
     (case ParseDuration L readIntervalEnv of
        Inl e \<Rightarrow> Inl (''can not parse sqlite read interval env variable: '' @ e)
      | Inr sqliteReadInterval \<Rightarrow>
         (case ParseDuration L writeIntervalEnv of
            Inl e \<Rightarrow> Inl (''can not parse sqlite write interval env variable: '' @ e)
          | Inr sqliteWriteInterval \<Rightarrow>
             (case schemaFault of
                Some e \<Rightarrow> Inl (''can not create schema: '' @ e)
              | None \<Rightarrow> Inr (sqliteReadInterval, sqliteWriteInterval, createSchema st))))"

text \<open>
  What one iteration of the write loop takes from outside: the result of
  \<open>rand.Intn(1000)\<close>, the store's \<open>datetime('now')\<close> and the statement's failure.
\<close>

record writeTick =
  randIntn :: nat
  datetimeNow :: string
  insertFault :: "error option"

text \<open>\<open>payload := fmt.Sprintf("rand=%d", rand.Intn(1000))\<close>.\<close>

definition payloadOf :: "writeTick \<Rightarrow> string" where
  "payloadOf i = ''rand='' @ fmt_d (int (randIntn i))"

text \<open>
  The \<open>default\<close> branch of the write loop's \<open>select\<close>: the records it logs and
  the table it leaves.
\<close>

definition writeCycle :: "config \<Rightarrow> writeTick \<Rightarrow> table \<Rightarrow> Record list \<times> table" where
  "writeCycle cfg i t =
     (let (e, t1) = Exec_insert (podNameEnv cfg) (datetimeNow i) (payloadOf i) (insertFault i) t
      in case e of
           Some e \<Rightarrow> ([logger cfg LevelError ''WRITE error'' [(''error'', ErrorValue e)]], t1)
         | None \<Rightarrow> ([], t1))"

text \<open>The \<open>ticker.C\<close> branch of the read loop's \<open>select\<close>.\<close>

definition readCycle :: "lib \<Rightarrow> config \<Rightarrow> error option \<Rightarrow> table \<Rightarrow> Record" where
  "readCycle L cfg fault t =
     (case (case QueryRow fault t of Inl e \<Rightarrow> Inl e | Inr row \<Rightarrow> Scan L row) of
        Inl e \<Rightarrow> logger cfg LevelError ''read error'' [(''error'', ErrorValue e)]
      | Inr (count, lastPod, lastTS, lastPayload) \<Rightarrow>
          logger cfg LevelInfo ''successful read''
            [(''count'', IntValue count), (''lastPod'', StringValue lastPod),
             (''lastTimestamp'', StringValue lastTS),
             (''lastPayload'', StringValue lastPayload)])"

text \<open>
  The two goroutines over the shared store, as a machine that takes one event at a
  time: \<open>cancel()\<close> is called; the write loop comes to its \<open>select\<close> (it returns if
  the context is done, else it runs the default branch and sleeps); the read loop's
  \<open>select\<close> takes a tick of the ticker; the read loop's \<open>select\<close> takes
  \<open>ctx.Done()\<close>, which it can only when the context is done. A loop that has
  returned takes no further event.
\<close>

record sys =
  entriesTable :: table
  ctxDone :: bool
  writeLoop :: bool
  readLoop :: bool
  logged :: "Record list"

datatype event = Cancel | WriteSelect writeTick | ReadTick "error option" | ReadDone

definition startLoops :: "table \<Rightarrow> sys" where
  "startLoops t =
     \<lparr>entriesTable = t, ctxDone = False, writeLoop = True, readLoop = True, logged = []\<rparr>"

fun step :: "lib \<Rightarrow> config \<Rightarrow> sys \<Rightarrow> event \<Rightarrow> sys" where
  "step L cfg s Cancel = s\<lparr>ctxDone := True\<rparr>"
| "step L cfg s (WriteSelect i) =
     (if \<not> writeLoop s then s
      else if ctxDone s then s\<lparr>writeLoop := False\<rparr>
      else (let (recs, t1) = writeCycle cfg i (entriesTable s)
            in s\<lparr>entriesTable := t1, logged := logged s @ recs\<rparr>))"
| "step L cfg s (ReadTick fault) =
     (if \<not> readLoop s then s
      else s\<lparr>logged := logged s @ [readCycle L cfg fault (entriesTable s)]\<rparr>)"
| "step L cfg s ReadDone =
     (if readLoop s \<and> ctxDone s then s\<lparr>readLoop := False\<rparr> else s)"

definition run :: "lib \<Rightarrow> config \<Rightarrow> sys \<Rightarrow> event list \<Rightarrow> sys" where
  "run L cfg s evs = foldl (step L cfg) s evs"

text \<open>
  The write ticks of a run whose insert succeeded, in order: those the write loop took
  while it was running and the context was not done, and that logged no error.
\<close>

definition insertedBy :: "config \<Rightarrow> sys \<Rightarrow> event \<Rightarrow> writeTick list" where
  "insertedBy cfg s ev =
     (case ev of
        WriteSelect i \<Rightarrow>
          if writeLoop s \<and> \<not> ctxDone s \<and> fst (writeCycle cfg i (entriesTable s)) = []
          then [i] else []
      | _ \<Rightarrow> [])"

fun inserted :: "lib \<Rightarrow> config \<Rightarrow> sys \<Rightarrow> event list \<Rightarrow> writeTick list" where
  "inserted L cfg s [] = []"
| "inserted L cfg s (ev # evs) = insertedBy cfg s ev @ inserted L cfg (step L cfg s ev) evs"

text \<open>
  The Probe Records of a list of successful write ticks, the first with the id after
  \<open>k\<close>: the pod label of the configuration, the store's timestamp, the tick's payload.
\<close>

definition entryOf :: "config \<Rightarrow> int \<Rightarrow> writeTick \<Rightarrow> entry" where
  "entryOf cfg k i =
     \<lparr>entry_id = k, pod = podNameEnv cfg, ts = datetimeNow i, payload = Some (payloadOf i)\<rparr>"

fun newRows :: "config \<Rightarrow> int \<Rightarrow> writeTick list \<Rightarrow> entry list" where
  "newRows cfg k [] = []"
| "newRows cfg k (i # is) = entryOf cfg (k + 1) i # newRows cfg (k + 1) is"

section \<open>Example configurations and worlds\<close>

text \<open>
  Concrete values on which the properties below are run: stand-ins for the library
  parameters, the environment of the documented scenario, an environment with a storage
  path, a pod name and unusual identity values, worlds with an unreachable NFS server,
  with an empty exported directory and with a directory of two entries, and runs of the
  probe loops.
\<close>

definition exampleLib :: lib where
  "exampleLib =
     \<lparr>Quote = (\<lambda>s. [CHR 0x22] @ s @ [CHR 0x22]),
      ParseDuration = (\<lambda>s. if s = ''20s'' then Inr 20000000000
                            else Inl (''time: invalid duration '' @ s)),
      MarshalFileInfo = (\<lambda>f. Inr (jsonString (Name f))),
      TimestampText = (\<lambda>s. ''0001-01-01T00:00:00Z'')\<rparr>"

definition scenarioGlobals :: globals where
  "scenarioGlobals =
     \<lparr>server = ''10.0.0.1'', share = ''/export'', listenPort = [], timeoutEnv = [],
      machineName = [], uidEnv = ''0'', gidEnv = ''0'', storagePathEnv = [],
      sqliteStoragePathEnv = [], podNameEnv = [], sqliteWriteIntervalEnv = [],
      sqliteReadIntervalEnv = []\<rparr>"

definition scenarioConfig :: config where
  "scenarioConfig =
     globals.extend (applyDefaults scenarioGlobals) (config.fields 20000000000 0 0)"

definition storageGlobals :: globals where
  "storageGlobals =
     scenarioGlobals\<lparr>uidEnv := ''-1'', gidEnv := ''4294967296'',
       storagePathEnv := ''/data/ts'', podNameEnv := ''pod-a''\<rparr>"

definition storageConfig :: config where
  "storageConfig =
     globals.extend (applyDefaults storageGlobals) (config.fields 20000000000 (- 1) 4294967296)"

definition exampleTime :: Time where
  "exampleTime =
     \<lparr>Year = 2026, Month = 11, Day = 1, Hour = 18, Minute = 31, Second = 5,
      ZoneOffset = 3600\<rparr>"

definition emptyFs :: filesystem where
  "emptyFs = \<lparr>fileContent = Map.empty, writeError = Map.empty, readError = Map.empty\<rparr>"

definition unreachableWorld :: world where
  "unreachableWorld =
     \<lparr>now = exampleTime, fs = emptyFs, fsOps = [],
      nfs = (\<lambda>srv auth tmo. Inl ''dial tcp 10.0.0.1:2049: i/o timeout''),
      nfsOps = [], logs = []\<rparr>"

definition emptyDirWorld :: world where
  "emptyDirWorld =
     \<lparr>now = exampleTime, fs = emptyFs, fsOps = [],
      nfs = (\<lambda>srv auth tmo. Inr (\<lambda>path. Inr [])),
      nfsOps = [], logs = []\<rparr>"

definition exampleFiles :: "FileInfo list" where
  "exampleFiles =
     [\<lparr>Name = ''a.txt'', IsDir = False, Size = 12, Mtime = exampleTime\<rparr>,
      \<lparr>Name = ''logs'', IsDir = True, Size = 4096, Mtime = exampleTime\<rparr>]"

definition listingWorld :: world where
  "listingWorld =
     \<lparr>now = exampleTime, fs = emptyFs, fsOps = [],
      nfs = (\<lambda>srv auth tmo. Inr (\<lambda>path. Inr exampleFiles)),
      nfsOps = [], logs = []\<rparr>"

definition dataRequest :: Request where
  "dataRequest = \<lparr>query = [(''path'', ''/data'')]\<rparr>"

definition tick1 :: writeTick where
  "tick1 = \<lparr>randIntn = 7, datetimeNow = ''2026-11-01 17:31:05'', insertFault = None\<rparr>"

definition tick2 :: writeTick where
  "tick2 = \<lparr>randIntn = 999, datetimeNow = ''2026-11-01 17:31:06'',
            insertFault = Some ''database is locked''\<rparr>"

definition tick3 :: writeTick where
  "tick3 = \<lparr>randIntn = 42, datetimeNow = ''2026-11-01 17:31:07'', insertFault = None\<rparr>"

definition exampleTable :: table where
  "exampleTable =
     \<lparr>rows = [\<lparr>entry_id = 5, pod = ''pod-b'', ts = ''2026-10-31 09:00:00'', payload = None\<rparr>],
      seq = 7\<rparr>"

definition exampleRun :: "event list" where
  "exampleRun = [WriteSelect tick1, ReadTick None, WriteSelect tick2, WriteSelect tick3]"


section \<open>Digits, padding and the timestamp round trip\<close>

lemma digit_cases: "d < 10 \<Longrightarrow> d = 0 \<or> d = 1 \<or> d = 2 \<or> d = 3 \<or> d = 4 \<or> d = 5 \<or> d = 6 \<or> d = 7 \<or> d = 8 \<or> d = (9::nat)"
  by arith

lemma isDigit_digit: "d < 10 \<Longrightarrow> isDigit (digit d)"
  using digit_cases [of d] by (auto simp: isDigit_def digit_def)

lemma digitVal_digit: "d < 10 \<Longrightarrow> digitVal (digit d) = d"
  using digit_cases [of d] by (auto simp: digitVal_def digit_def)

lemma digit_not_sign: "d < 10 \<Longrightarrow> digit d \<noteq> CHR ''-'' \<and> digit d \<noteq> CHR ''+''"
  using digit_cases [of d] by (auto simp: digit_def)

lemma digit_0: "digit 0 = CHR ''0''"
  by (simp add: digit_def)

lemma replicate_small:
  "replicate 3 c = [c, c, c]" "replicate 2 c = [c, c]"
  by (simp_all add: numeral_3_eq_3 numeral_2_eq_2)

lemma itoa_1: "n < 10 \<Longrightarrow> itoa n = [digit n]"
  by (simp add: itoa.simps)

lemma itoa_2: "10 \<le> n \<Longrightarrow> n < 100 \<Longrightarrow> itoa n = [digit (n div 10), digit (n mod 10)]"
  by (subst itoa.simps) (simp add: itoa_1)

lemma itoa_3: "100 \<le> n \<Longrightarrow> n < 1000 \<Longrightarrow> itoa n = [digit (n div 100), digit (n div 10 mod 10), digit (n mod 10)]"
  by (subst itoa.simps) (simp add: itoa_2 div_mult2_eq[symmetric])

lemma itoa_4: "1000 \<le> n \<Longrightarrow> n < 10000 \<Longrightarrow>
  itoa n = [digit (n div 1000), digit (n div 100 mod 10), digit (n div 10 mod 10), digit (n mod 10)]"
  by (subst itoa.simps) (simp add: itoa_3 div_mult2_eq[symmetric])

lemma appendInt_2: "n < 100 \<Longrightarrow> appendInt (int n) 2 = [digit (n div 10), digit (n mod 10)]"
proof (cases "n < 10")
  case True
  then show ?thesis by (simp add: appendInt_def itoa_1 digit_0)
next
  case False
  assume "n < 100"
  with False show ?thesis by (simp add: appendInt_def itoa_2)
qed

lemma appendInt_4: "n < 10000 \<Longrightarrow>
  appendInt (int n) 4 = [digit (n div 1000), digit (n div 100 mod 10), digit (n div 10 mod 10), digit (n mod 10)]"
proof -
  assume n: "n < 10000"
  consider "n < 10" | "10 \<le> n" "n < 100" | "100 \<le> n" "n < 1000" | "1000 \<le> n" by linarith
  then show ?thesis
  proof cases
    case 1
    then have "n div 1000 = 0" "n div 100 mod 10 = 0" "n div 10 mod 10 = 0" "n mod 10 = n"
      by simp_all
    with 1 show ?thesis by (simp add: appendInt_def itoa_1 digit_0 replicate_small)
  next
    case 2
    then have "n div 1000 = 0" "n div 100 mod 10 = 0" "n div 10 mod 10 = n div 10"
      by simp_all
    with 2 show ?thesis by (simp add: appendInt_def itoa_2 digit_0 replicate_small)
  next
    case 3
    then have "n div 1000 = 0" "n div 100 mod 10 = n div 100"
      by simp_all
    with 3 show ?thesis by (simp add: appendInt_def itoa_3 digit_0)
  next
    case 4 with n show ?thesis by (simp add: appendInt_def itoa_4)
  qed
qed

lemma atoiN_2: "a < 10 \<Longrightarrow> b < 10 \<Longrightarrow> atoiN [digit a, digit b] = Some (a * 10 + b)"
  by (simp add: atoiN_def isDigit_digit digitVal_digit)

lemma atoiN_4: "a < 10 \<Longrightarrow> b < 10 \<Longrightarrow> c < 10 \<Longrightarrow> d < 10 \<Longrightarrow>
  atoiN [digit a, digit b, digit c, digit d] = Some (((a * 10 + b) * 10 + c) * 10 + d)"
  by (simp add: atoiN_def isDigit_digit digitVal_digit)

lemma two_digits: "n < 100 \<Longrightarrow> atoiN (appendInt (int n) 2) = Some n"
  by (simp add: appendInt_2 atoiN_2)

lemma dig4: "((n div 1000 * 10 + n div 100 mod 10) * 10 + n div 10 mod 10) * 10 + n mod 10 = (n::nat)"
proof -
  have a: "n div 1000 = n div 100 div 10" by (simp add: div_mult2_eq [symmetric])
  have b: "n div 100 = n div 10 div 10" by (simp add: div_mult2_eq [symmetric])
  have 1: "n div 100 div 10 * 10 + n div 100 mod 10 = n div 100" by (rule div_mult_mod_eq)
  have 2: "n div 10 div 10 * 10 + n div 10 mod 10 = n div 10" by (rule div_mult_mod_eq)
  have 3: "n div 10 * 10 + n mod 10 = n" by (rule div_mult_mod_eq)
  show ?thesis unfolding a 1 unfolding b 2 by (rule 3)
qed

lemma four_digits: "n < 10000 \<Longrightarrow> atoiN (appendInt (int n) 4) = Some n"
proof -
  assume n: "n < 10000"
  have "atoiN [digit (n div 1000), digit (n div 100 mod 10), digit (n div 10 mod 10),
               digit (n mod 10)] =
        Some (((n div 1000 * 10 + n div 100 mod 10) * 10 + n div 10 mod 10) * 10 + n mod 10)"
    by (rule atoiN_4) (use n in simp_all)
  then show ?thesis unfolding appendInt_4 [OF n] dig4 .
qed

lemma zone_minutes:
  assumes "\<bar>z\<bar> < 86400" and "z mod 60 = 0" and "z \<noteq> 0"
  shows "\<exists>m. 0 < m \<and> m < 1440 \<and> \<bar>z\<bar> = int m * 60"
proof -
  have "0 < nat (\<bar>z\<bar> div 60) \<and> nat (\<bar>z\<bar> div 60) < 1440 \<and> \<bar>z\<bar> = int (nat (\<bar>z\<bar> div 60)) * 60"
    using assms by (auto simp: abs_if)
  then show ?thesis by blast
qed

lemma formatZone_minutes:
  assumes "0 < m" and "m < 1440" and "\<bar>z\<bar> = int m * 60"
  shows "formatZone z = (if z < 0 then ''-'' else ''+'') @
      [digit (m div 60 div 10), digit (m div 60 mod 10), CHR '':'',
       digit (m mod 60 div 10), digit (m mod 60 mod 10)]"
proof -
  have z0: "z \<noteq> 0" using assms by auto
  have d: "\<bar>z\<bar> div 60 = int m" using assms(3) by simp
  have az: "\<bar>sgn z * int m\<bar> = int m"
    using z0 by (simp add: abs_mult abs_sgn_eq)
  have neg: "sgn z * int m < 0 \<longleftrightarrow> z < 0"
    using assms(1) by (cases "z < 0") (auto simp: sgn_if)
  have i: "int m div 60 = int (m div 60)" "int m mod 60 = int (m mod 60)"
    by (simp_all add: zdiv_int zmod_int)
  have hm: "m div 60 < 100" "m mod 60 < 100" using assms(2) by auto
  have "formatZone z = (if z < 0 then ''-'' else ''+'') @
      appendInt (int (m div 60)) 2 @ '':'' @ appendInt (int (m mod 60)) 2"
    unfolding formatZone_def Let_def d az neg i using z0 by simp
  then show ?thesis using hm by (simp add: appendInt_2)
qed


lemma parseZone_minutes:
  assumes "m < 1440"
  shows "parseZone ((if z < (0::int) then ''-'' else ''+'') @
      [digit (m div 60 div 10), digit (m div 60 mod 10), CHR '':'',
       digit (m mod 60 div 10), digit (m mod 60 mod 10)]) =
      Some ((if z < 0 then - 1 else 1) * (int m * 60))"
proof -
  have hm: "m div 60 < 24" "m div 60 div 10 < 10" "m mod 60 div 10 < 10" using assms by auto
  have 1: "m div 60 div 10 * 10 + m div 60 mod 10 = m div 60" by (rule div_mult_mod_eq)
  have 2: "m mod 60 div 10 * 10 + m mod 60 mod 10 = m mod 60" by (rule div_mult_mod_eq)
  have 3: "m div 60 * 60 + m mod 60 = m" by (rule div_mult_mod_eq)
  show ?thesis
    using hm by (simp add: parseZone_def atoiN_2 1 2 3)
qed

lemma formatZone_parse:
  assumes "\<bar>z\<bar> < 86400" and "z mod 60 = 0"
  shows "parseZone (formatZone z) = Some z"
proof (cases "z = 0")
  case True
  have "formatZone 0 = ''Z''" by (simp add: formatZone_def)
  moreover have "parseZone ''Z'' = Some 0" by (simp add: parseZone_def)
  ultimately show ?thesis using True by simp
next
  case False
  from zone_minutes [OF assms False]
  obtain m where m: "0 < m" "m < 1440" "\<bar>z\<bar> = int m * 60" by blast
  have "parseZone (formatZone z) = Some ((if z < 0 then - 1 else 1) * (int m * 60))"
    by (simp only: formatZone_minutes [OF m] parseZone_minutes [OF m(2)])
  also have "(if z < 0 then - 1 else 1) * (int m * 60) = z"
    unfolding m(3) [symmetric] by simp
  finally show ?thesis .
qed

lemma Format_RFC3339_parse:
  assumes "validTime t"
  shows "Parse_RFC3339 (Format_RFC3339 t) = Some t"
proof -
  define y where "y = nat (Year t)"
  have y: "y < 10000" "int y = Year t" using assms by (auto simp: validTime_def y_def)
  have d31: "daysIn (Month t) y \<le> 31" by (simp add: daysIn_def)
  have f: "Month t < 100" "Day t < 100" "Hour t < 100" "Minute t < 100" "Second t < 100"
    using assms d31 by (auto simp: validTime_def y_def)
  have z: "parseZone (formatZone (ZoneOffset t)) = Some (ZoneOffset t)"
    using assms by (intro formatZone_parse) (auto simp: validTime_def)
  have rng: "1 \<le> Month t" "Month t \<le> 12" "1 \<le> Day t" "Day t \<le> daysIn (Month t) y"
    "Hour t < 24" "Minute t < 60" "Second t < 60"
    using assms by (auto simp: validTime_def y_def)
  have fmt: "Format_RFC3339 t =
     [digit (y div 1000), digit (y div 100 mod 10), digit (y div 10 mod 10), digit (y mod 10),
      CHR ''-'', digit (Month t div 10), digit (Month t mod 10),
      CHR ''-'', digit (Day t div 10), digit (Day t mod 10),
      CHR ''T'', digit (Hour t div 10), digit (Hour t mod 10),
      CHR '':'', digit (Minute t div 10), digit (Minute t mod 10),
      CHR '':'', digit (Second t div 10), digit (Second t mod 10)] @
     formatZone (ZoneOffset t)"
    unfolding Format_RFC3339_def y(2) [symmetric]
    using y(1) f by (simp add: appendInt_2 appendInt_4)
  have a4: "atoiN [digit (y div 1000), digit (y div 100 mod 10), digit (y div 10 mod 10), digit (y mod 10)] = Some y"
    using four_digits [OF y(1)] by (simp add: appendInt_4 y(1))
  have a2: "\<And>n. n < 100 \<Longrightarrow> atoiN [digit (n div 10), digit (n mod 10)] = Some n"
    using two_digits by (simp add: appendInt_2)
  have t: "\<lparr>Year = int y, Month = Month t, Day = Day t, Hour = Hour t, Minute = Minute t,
            Second = Second t, ZoneOffset = ZoneOffset t\<rparr> = t"
    by (simp add: y(2))
  have zl: "formatZone (ZoneOffset t) \<noteq> []"
    by (simp add: formatZone_def Let_def)
  show ?thesis
    unfolding fmt Parse_RFC3339_def
    using f rng
    by (simp add: a4 a2 z t zl)
qed

section \<open>Finalization and the handler bodies\<close>

lemma Encode_writer [simp]: "Encode L (r\<lparr>writer := w\<rparr>) = Encode L r"
  by (simp add: Encode_def marshalResponse_def split: sum.splits)

lemma handle_fields:
  assumes "handle L cfg r0 wd = (r, wd')"
  shows "Pod r = podNameEnv cfg" and "err r = err r0" and "Message r = Message r0"
    and "Files r = Files r0"
    and "Error r = (if err r0 = None then Error r0 else ''something went wrong'')"
  using assms
  by (auto simp: handle_def Let_def split: option.splits sum.splits prod.splits)

lemma handle_world:
  assumes "handle L cfg r0 wd = (r, wd')"
  shows "now wd' = now wd" and "fs wd' = fs wd" and "fsOps wd' = fsOps wd"
    and "nfs wd' = nfs wd" and "nfsOps wd' = nfsOps wd"
  using assms
  by (auto simp: handle_def Let_def logTo_def split: option.splits sum.splits prod.splits)

lemma handle_writer:
  assumes "handle L cfg r0 wd = (r, wd')" and "writer r0 = newWriter"
  shows "sentHeader (writer r) ''Content-Type'' = Some ''application/json''"
    and "status (writer r) = Some (if err r0 = None then 200 else 500)"
    and "body (writer r) = (case Encode L r of Inl _ \<Rightarrow> [] | Inr data \<Rightarrow> data)"
  using assms
  by (auto simp: handle_def Let_def newWriter_def Header_Set_def WriteHeader_def Write_def
        sentHeader_def status_def split: option.splits sum.splits prod.splits)

lemma handle_logs:
  assumes "handle L cfg r0 wd = (r, wd')"
  shows "logs wd' = logs wd @
           (case err r0 of None \<Rightarrow> [] | Some e \<Rightarrow> [logger cfg LevelError e []]) @
           (case Encode L r of
              Inl e \<Rightarrow> [logger cfg LevelError ''can not JSON encode output''
                          [(''error'', ErrorValue e)]]
            | Inr _ \<Rightarrow> [])"
  using assms
  by (auto simp: handle_def Let_def logTo_def split: option.splits sum.splits prod.splits)


lemma jsonString_generic: \<open>jsonString ''something went wrong'' = ''"something went wrong"''\<close>
  by (simp add: jsonString_def htmlSafe_def)

lemma jsonString_keys:
  \<open>jsonString ''pod'' = ''"pod"''\<close> \<open>jsonString ''error'' = ''"error"''\<close>
  \<open>jsonString ''message'' = ''"message"''\<close> \<open>jsonString ''files'' = ''"files"''\<close>
  by (simp_all add: jsonString_def htmlSafe_def)

lemma Encode_error_envelope:
  assumes "Files r = []" and "Message r = []" and "Error r = ''something went wrong''"
  shows \<open>Encode L r =
           Inr ((if Pod r = [] then ''{"error":"something went wrong"}''
                 else ''{"pod":'' @ jsonString (Pod r) @ '',"error":"something went wrong"}'') @
                [CHR 0x0A])\<close>
  using assms
  by (simp add: Encode_def marshalResponse_def jsonField_def jsonString_generic jsonString_keys)

lemma writeStorageBody_fields:
  assumes "writeStorageBody cfg (newResponse w) wd = (r0, wd1)"
  shows "writer r0 = w" and "Error r0 = []" and "Pod r0 = []" and "Files r0 = []"
    and "err r0 = None \<longleftrightarrow> Message r0 \<noteq> []" and "logs wd1 = logs wd"
  using assms
  by (auto simp: writeStorageBody_def WriteFile_def Let_def newResponse_def
           split: if_splits option.splits)

lemma readStorageBody_fields:
  assumes "readStorageBody cfg (newResponse w) wd = (r0, wd1)"
  shows "writer r0 = w" and "Error r0 = []" and "Pod r0 = []" and "Files r0 = []"
    and "err r0 = None \<longleftrightarrow> Message r0 \<noteq> []" and "logs wd1 = logs wd"
  using assms
  by (auto simp: readStorageBody_def ReadFile_def Let_def newResponse_def
           split: if_splits option.splits)

lemma listBody_fields:
  assumes "listBody L cfg (newResponse w) req wd = (r0, wd1)"
  shows "writer r0 = w" and "Error r0 = []" and "Pod r0 = []" and "Message r0 = []"
    and "err r0 \<noteq> None \<longrightarrow> Files r0 = []" and "logs wd1 = logs wd"
    and "fs wd1 = fs wd" and "fsOps wd1 = fsOps wd"
  using assms
  by (auto simp: listBody_def NewNfsClient_def Let_def newResponse_def
           split: if_splits sum.splits)

lemma serve_handle:
  obtains r0 wd1 where "serve L cfg ep req wd = handle L cfg r0 wd1"
    and "writer r0 = newWriter" and "Error r0 = []" and "Pod r0 = []"
    and "err r0 \<noteq> None \<longrightarrow> Message r0 = [] \<and> Files r0 = []"
    and "ep \<noteq> List \<longrightarrow> Files r0 = [] \<and> (err r0 = None \<longleftrightarrow> Message r0 \<noteq> [])"
    and "ep = List \<longrightarrow> Message r0 = []"
    and "logs wd1 = logs wd"
proof (cases ep)
  case List
  obtain r0 wd1 where b: "listBody L cfg (newResponse newWriter) req wd = (r0, wd1)"
    by (cases "listBody L cfg (newResponse newWriter) req wd")
  with List have "serve L cfg ep req wd = handle L cfg r0 wd1"
    by (simp add: listHandler_def)
  with listBody_fields [OF b] List that show ?thesis by simp
next
  case WriteStorage
  obtain r0 wd1 where b: "writeStorageBody cfg (newResponse newWriter) wd = (r0, wd1)"
    by (cases "writeStorageBody cfg (newResponse newWriter) wd")
  with WriteStorage have "serve L cfg ep req wd = handle L cfg r0 wd1"
    by (simp add: writeStorage_def)
  with writeStorageBody_fields [OF b] WriteStorage that show ?thesis by simp
next
  case ReadStorage
  obtain r0 wd1 where b: "readStorageBody cfg (newResponse newWriter) wd = (r0, wd1)"
    by (cases "readStorageBody cfg (newResponse newWriter) wd")
  with ReadStorage have "serve L cfg ep req wd = handle L cfg r0 wd1"
    by (simp add: readStorage_def)
  with readStorageBody_fields [OF b] ReadStorage that show ?thesis by simp
qed

section \<open>The response envelope on every request\<close>

lemma main_init_globals:
  assumes "main_init L g = Inr cfg"
  shows "podNameEnv cfg = podNameEnv g" and "server cfg = server g"
    and "storagePathEnv cfg = storagePathEnv g"
  using assms
  by (auto simp: main_init_def Let_def applyDefaults_def globals.defs config.defs
           split: if_splits sum.splits)

lemma main_init_scenario: "main_init exampleLib scenarioGlobals = Inr scenarioConfig"
  by (simp add: main_init_def scenarioGlobals_def scenarioConfig_def exampleLib_def
        applyDefaults_def orDefault_def Let_def Atoi_def ParseInt_def ParseUint_def
        isDigit_def digitVal_def maxUint64_def)

lemma main_init_storage: "main_init exampleLib storageGlobals = Inr storageConfig"
  by (simp add: main_init_def storageGlobals_def scenarioGlobals_def storageConfig_def
        exampleLib_def applyDefaults_def orDefault_def Let_def Atoi_def ParseInt_def
        ParseUint_def isDigit_def digitVal_def maxUint64_def)

lemma scenarioConfig_fields:
  "podNameEnv scenarioConfig = []" "server scenarioConfig = ''10.0.0.1''"
  "storagePathEnv scenarioConfig = []" "timeout scenarioConfig = 20000000000"
  "uid scenarioConfig = 0" "gid scenarioConfig = 0" "machineName scenarioConfig = ''its-me''"
  by (simp_all add: scenarioConfig_def scenarioGlobals_def applyDefaults_def orDefault_def
        globals.defs config.defs)

lemma storageConfig_fields:
  "podNameEnv storageConfig = ''pod-a''" "server storageConfig = ''10.0.0.1''"
  "storagePathEnv storageConfig = ''/data/ts''" "timeout storageConfig = 20000000000"
  "uid storageConfig = - 1" "gid storageConfig = 4294967296"
  "machineName storageConfig = ''its-me''"
  by (simp_all add: storageConfig_def storageGlobals_def scenarioGlobals_def applyDefaults_def
        orDefault_def globals.defs config.defs)

lemma serve_response:
  assumes "serve L cfg ep req wd = (r, wd')"
  shows "sentHeader (writer r) ''Content-Type'' = Some ''application/json''"
    and "Pod r = podNameEnv cfg"
    and "status (writer r) = Some (if err r = None then 200 else 500)"
    and "Error r = (if err r = None then [] else ''something went wrong'')"
    and "body (writer r) = (case Encode L r of Inl _ \<Rightarrow> [] | Inr data \<Rightarrow> data)"
    and \<open>err r = Some e \<Longrightarrow>
           body (writer r) =
             (if podNameEnv cfg = [] then ''{"error":"something went wrong"}''
              else ''{"pod":'' @ jsonString (podNameEnv cfg) @
                   '',"error":"something went wrong"}'') @ [CHR 0x0A] \<and>
           logs wd' = logs wd @ [logger cfg LevelError e []]\<close>
proof -
  obtain r0 wd1 where h: "serve L cfg ep req wd = handle L cfg r0 wd1"
    and w: "writer r0 = newWriter" and e0: "Error r0 = []"
    and er: "err r0 \<noteq> None \<longrightarrow> Message r0 = [] \<and> Files r0 = []"
    and lg: "logs wd1 = logs wd"
    by (rule serve_handle)
  from h assms have hr: "handle L cfg r0 wd1 = (r, wd')" by simp
  note f = handle_fields [OF hr] and wr = handle_writer [OF hr w] and l = handle_logs [OF hr]
  show "sentHeader (writer r) ''Content-Type'' = Some ''application/json''" by (rule wr(1))
  show "Pod r = podNameEnv cfg" by (rule f(1))
  show "status (writer r) = Some (if err r = None then 200 else 500)"
    using wr(2) f(2) by simp
  show "Error r = (if err r = None then [] else ''something went wrong'')"
    using f(5) f(2) e0 by simp
  show "body (writer r) = (case Encode L r of Inl _ \<Rightarrow> [] | Inr data \<Rightarrow> data)"
    by (rule wr(3))
  show \<open>body (writer r) =
              (if podNameEnv cfg = [] then ''{"error":"something went wrong"}''
               else ''{"pod":'' @ jsonString (podNameEnv cfg) @
                    '',"error":"something went wrong"}'') @ [CHR 0x0A] \<and>
            logs wd' = logs wd @ [logger cfg LevelError e []]\<close> if "err r = Some e"
  proof -
    from that f(2) have e: "err r0 = Some e" by simp
    with er f have "Files r = []" "Message r = []" "Error r = ''something went wrong''"
      by simp_all
    from Encode_error_envelope [OF this, of L] show ?thesis
      using wr(3) l e lg f(1) by simp
  qed
qed

text \<open>
  Claim C1. Every request served through the envelope (\<open>/list\<close>,
  \<open>/write-storage\<close>, \<open>/read-storage\<close>) ends with the header
  \<open>Content-Type: application/json\<close> sent, the pod label of the configuration stamped,
  status 500 when the handler recorded an error and 200 otherwise, and an error field
  that is empty or the fixed string. The body is the encoding of the envelope; when an
  error was recorded the whole body is a fixed text that depends on the pod label only,
  so no part of the recorded error reaches the client: its text goes to the log.
\<close>

theorem envelope_finalization:
  assumes "serve L cfg ep req wd = (r, wd')"
  shows \<open>sentHeader (writer r) ''Content-Type'' = Some ''application/json'' \<and>
         Pod r = podNameEnv cfg \<and>
         status (writer r) = Some (if err r = None then 200 else 500) \<and>
         Error r = (if err r = None then [] else ''something went wrong'') \<and>
         body (writer r) = (case Encode L r of Inl _ \<Rightarrow> [] | Inr data \<Rightarrow> data) \<and>
         (\<forall>e. err r = Some e \<longrightarrow>
            body (writer r) =
              (if podNameEnv cfg = [] then ''{"error":"something went wrong"}''
               else ''{"pod":'' @ jsonString (podNameEnv cfg) @
                    '',"error":"something went wrong"}'') @ [CHR 0x0A] \<and>
            logs wd' = logs wd @ [logger cfg LevelError e []])\<close>
  using serve_response [OF assms] by blast

lemma listBody_unreachable:
  "nfs wd (server cfg) (authParams cfg) (timeout cfg) = Inl e \<Longrightarrow>
   listBody L cfg r req wd =
     (r\<lparr>err := Some (''error creating NFS client: '' @ e)\<rparr>,
      wd\<lparr>nfsOps := nfsOps wd @ [(server cfg, authParams cfg)]\<rparr>)"
  by (simp add: listBody_def NewNfsClient_def Let_def)

lemma serve_List_unreachable:
  assumes "nfs wd (server cfg) (authParams cfg) (timeout cfg) = Inl e"
  shows "err (fst (serve L cfg List req wd)) = Some (''error creating NFS client: '' @ e)"
proof -
  have "serve L cfg List req wd =
        handle L cfg ((newResponse newWriter)\<lparr>err := Some (''error creating NFS client: '' @ e)\<rparr>)
          (wd\<lparr>nfsOps := nfsOps wd @ [(server cfg, authParams cfg)]\<rparr>)"
    by (simp add: listHandler_def listBody_unreachable [OF assms])
  then show ?thesis
    using handle_fields(2) [of L cfg _ _ "fst (serve L cfg List req wd)" "snd (serve L cfg List req wd)"]
    by simp
qed

lemma jsonString_pod_a: \<open>jsonString ''pod-a'' = ''"pod-a"''\<close>
  by (simp add: jsonString_def htmlSafe_def)

theorem envelope_finalization_witness:
  \<open>err (fst (serve exampleLib storageConfig List dataRequest unreachableWorld)) =
     Some ''error creating NFS client: dial tcp 10.0.0.1:2049: i/o timeout'' \<and>
   sentHeader (writer (fst (serve exampleLib storageConfig List dataRequest unreachableWorld)))
     ''Content-Type'' = Some ''application/json'' \<and>
   Pod (fst (serve exampleLib storageConfig List dataRequest unreachableWorld)) = ''pod-a'' \<and>
   status (writer (fst (serve exampleLib storageConfig List dataRequest unreachableWorld))) =
     Some 500 \<and>
   body (writer (fst (serve exampleLib storageConfig List dataRequest unreachableWorld))) =
     ''{"pod":"pod-a","error":"something went wrong"}'' @ [CHR 0x0A] \<and>
   logs (snd (serve exampleLib storageConfig List dataRequest unreachableWorld)) =
     [logger storageConfig LevelError
        ''error creating NFS client: dial tcp 10.0.0.1:2049: i/o timeout'' []]\<close>
proof -
  have e: "err (fst (serve exampleLib storageConfig List dataRequest unreachableWorld)) =
     Some ''error creating NFS client: dial tcp 10.0.0.1:2049: i/o timeout''"
    using serve_List_unreachable [of unreachableWorld storageConfig _ exampleLib dataRequest]
    by (simp add: unreachableWorld_def)
  have l: "logs unreachableWorld = []" by (simp add: unreachableWorld_def)
  note t = envelope_finalization [OF prod.collapse [symmetric],
      of exampleLib storageConfig List dataRequest unreachableWorld]
  from t have a: "sentHeader (writer (fst (serve exampleLib storageConfig List dataRequest
      unreachableWorld))) ''Content-Type'' = Some ''application/json''"
    by (rule conjunct1)
  from t have b: "Pod (fst (serve exampleLib storageConfig List dataRequest unreachableWorld)) =
      podNameEnv storageConfig"
    by blast
  from t have c: "status (writer (fst (serve exampleLib storageConfig List dataRequest
      unreachableWorld))) =
      Some (if err (fst (serve exampleLib storageConfig List dataRequest unreachableWorld)) = None
            then 200 else 500)"
    by blast
  from t e have d: \<open>body (writer (fst (serve exampleLib storageConfig List dataRequest
      unreachableWorld))) =
      (if podNameEnv storageConfig = [] then ''{"error":"something went wrong"}''
       else ''{"pod":'' @ jsonString (podNameEnv storageConfig) @
            '',"error":"something went wrong"}'') @ [CHR 0x0A] \<and>
      logs (snd (serve exampleLib storageConfig List dataRequest unreachableWorld)) =
      logs unreachableWorld @
      [logger storageConfig LevelError
         ''error creating NFS client: dial tcp 10.0.0.1:2049: i/o timeout'' []]\<close>
    by blast
  show ?thesis
    using a b c d e l by (simp add: storageConfig_fields jsonString_pod_a)
qed

section \<open>The documented scenario: an unreachable server\<close>

lemma unreachableWorld_nfs:
  "nfs unreachableWorld srv auth tmo = Inl ''dial tcp 10.0.0.1:2049: i/o timeout''"
  by (simp add: unreachableWorld_def)

lemma serve_List_unreachable_response:
  assumes "nfs wd (server cfg) (authParams cfg) (timeout cfg) = Inl e"
  shows \<open>status (writer (fst (serve L cfg List req wd))) = Some 500 \<and>
         body (writer (fst (serve L cfg List req wd))) =
           (if podNameEnv cfg = [] then ''{"error":"something went wrong"}''
            else ''{"pod":'' @ jsonString (podNameEnv cfg) @
                 '',"error":"something went wrong"}'') @ [CHR 0x0A]\<close>
proof -
  have e: "err (fst (serve L cfg List req wd)) = Some (''error creating NFS client: '' @ e)"
    by (rule serve_List_unreachable [OF assms])
  note t = serve_response [OF prod.collapse [symmetric], of L cfg List req wd]
  from t(3) e have "status (writer (fst (serve L cfg List req wd))) = Some 500" by simp
  with t(6) [OF e] show ?thesis by blast
qed

text \<open>
  Claim C2, as the specification states it, fails: in the documented scenario
  (\<open>NFS_SERVER=10.0.0.1\<close>, \<open>NFS_SHARE=/export\<close>, \<open>UID=0\<close>, \<open>GID=0\<close>, no
  \<open>POD_NAME\<close>) the body of the answer to \<open>GET /list?path=/data\<close> from an
  unreachable server is not \<open>{"pod":"","error":"something went wrong"}\<close>.
\<close>

theorem list_unreachable_body_counterexample:
  \<open>main_init exampleLib scenarioGlobals = Inr scenarioConfig \<and>
   status (writer (fst (serve exampleLib scenarioConfig List dataRequest unreachableWorld))) =
     Some 500 \<and>
   body (writer (fst (serve exampleLib scenarioConfig List dataRequest unreachableWorld))) \<noteq>
     ''{"pod":"","error":"something went wrong"}''\<close>
  using serve_List_unreachable_response [where wd = unreachableWorld and cfg = scenarioConfig
      and L = exampleLib and req = dataRequest, OF unreachableWorld_nfs]
  by (simp add: main_init_scenario scenarioConfig_fields)

text \<open>
  Claim C2, as amended. In that scenario, whatever the error of the connection attempt,
  the answer has status 500 and the body \<open>{"error":"something went wrong"}\<close> followed
  by a newline: the pod field is tagged \<open>omitempty\<close> and is left out when the label is
  empty, and the encoder ends its output with a newline.
\<close>

theorem list_unreachable_response:
  assumes "main_init L scenarioGlobals = Inr cfg"
    and "nfs wd (server cfg) (authParams cfg) (timeout cfg) = Inl e"
  shows \<open>status (writer (fst (serve L cfg List dataRequest wd))) = Some 500 \<and>
         body (writer (fst (serve L cfg List dataRequest wd))) =
           ''{"error":"something went wrong"}'' @ [CHR 0x0A]\<close>
proof -
  have p: "podNameEnv cfg = []"
    using main_init_globals(1) [OF assms(1)] by (simp add: scenarioGlobals_def)
  show ?thesis
    using serve_List_unreachable_response [OF assms(2), of L dataRequest] p by simp
qed

theorem list_unreachable_response_witness:
  \<open>main_init exampleLib scenarioGlobals = Inr scenarioConfig \<and>
   nfs unreachableWorld (server scenarioConfig) (authParams scenarioConfig)
     (timeout scenarioConfig) = Inl ''dial tcp 10.0.0.1:2049: i/o timeout'' \<and>
   status (writer (fst (serve exampleLib scenarioConfig List dataRequest unreachableWorld))) =
     Some 500 \<and>
   body (writer (fst (serve exampleLib scenarioConfig List dataRequest unreachableWorld))) =
     ''{"error":"something went wrong"}'' @ [CHR 0x0A]\<close>
  using list_unreachable_response [OF main_init_scenario unreachableWorld_nfs]
    main_init_scenario unreachableWorld_nfs
  by simp

section \<open>The envelope's fields and the storage endpoints without a path\<close>

lemma emptyDirWorld_nfs:
  "nfs emptyDirWorld srv auth tmo = Inr (\<lambda>path. Inr [])"
  by (simp add: emptyDirWorld_def)

lemma listBody_listed:
  assumes "nfs wd (server cfg) (authParams cfg) (timeout cfg) = Inr client"
    and "client (if Query_Get req ''path'' = [] then ''/'' else Query_Get req ''path'') =
         Inr entries"
  shows "listBody L cfg r req wd =
     (r\<lparr>Files := entries\<rparr>, wd\<lparr>nfsOps := nfsOps wd @ [(server cfg, authParams cfg)]\<rparr>)"
  using assms by (simp add: listBody_def NewNfsClient_def Let_def)

lemma serve_List_listed:
  assumes "nfs wd (server cfg) (authParams cfg) (timeout cfg) = Inr client"
    and "client (if Query_Get req ''path'' = [] then ''/'' else Query_Get req ''path'') =
         Inr entries"
  shows "err (fst (serve L cfg List req wd)) = None"
    and "Error (fst (serve L cfg List req wd)) = []"
    and "Message (fst (serve L cfg List req wd)) = []"
    and "Files (fst (serve L cfg List req wd)) = entries"
proof -
  have s: "serve L cfg List req wd =
        handle L cfg ((newResponse newWriter)\<lparr>Files := entries\<rparr>)
          (wd\<lparr>nfsOps := nfsOps wd @ [(server cfg, authParams cfg)]\<rparr>)"
    by (simp add: listHandler_def listBody_listed [OF assms])
  note f = handle_fields [of L cfg _ _ "fst (serve L cfg List req wd)"
      "snd (serve L cfg List req wd)", OF s [symmetric, THEN trans, OF prod.collapse [symmetric]]]
  show "err (fst (serve L cfg List req wd)) = None" using f(2) by (simp add: newResponse_def)
  show "Error (fst (serve L cfg List req wd)) = []" using f(5) by (simp add: newResponse_def)
  show "Message (fst (serve L cfg List req wd)) = []" using f(3) by (simp add: newResponse_def)
  show "Files (fst (serve L cfg List req wd)) = entries" using f(4) by (simp add: newResponse_def)
qed

lemma handle_fst_world: "fst (handle L cfg r wd) = fst (handle L cfg r wd2)"
  by (simp add: handle_def Let_def split: option.splits sum.splits prod.splits)

lemma handle_error_world:
  assumes "err r0 = Some e" and "Files r0 = []"
  shows "snd (handle L cfg r0 wd) = logTo (logger cfg LevelError e []) wd"
  using assms by (simp add: handle_def Let_def Encode_def marshalResponse_def)

lemma storage_no_path:
  assumes "storagePathEnv cfg = []" and "ep = WriteStorage \<or> ep = ReadStorage"
  shows "serve L cfg ep req wd =
         handle L cfg
           ((newResponse newWriter)
              \<lparr>err := Some ''no storage path set via STORAGE_PATH env variable''\<rparr>) wd"
  using assms
  by (auto simp: writeStorage_def writeStorageBody_def readStorage_def readStorageBody_def)

lemma storage_no_path_result:
  assumes "storagePathEnv cfg = []" and "ep = WriteStorage \<or> ep = ReadStorage"
  shows "err (fst (serve L cfg ep req wd)) =
           Some ''no storage path set via STORAGE_PATH env variable''"
    and "snd (serve L cfg ep req wd) =
           logTo (logger cfg LevelError ''no storage path set via STORAGE_PATH env variable'' []) wd"
    and "fst (serve L cfg ep req wd) = fst (serve L cfg ep req2 wd2)"
proof -
  note s = storage_no_path [OF assms]
  have "handle L cfg ((newResponse newWriter)
              \<lparr>err := Some ''no storage path set via STORAGE_PATH env variable''\<rparr>) wd =
        (fst (serve L cfg ep req wd), snd (serve L cfg ep req wd))"
    by (simp add: s)
  from handle_fields(2) [OF this]
  show "err (fst (serve L cfg ep req wd)) =
           Some ''no storage path set via STORAGE_PATH env variable''"
    by simp
  show "snd (serve L cfg ep req wd) =
           logTo (logger cfg LevelError ''no storage path set via STORAGE_PATH env variable'' []) wd"
    unfolding s by (rule handle_error_world) (simp_all add: newResponse_def)
  show "fst (serve L cfg ep req wd) = fst (serve L cfg ep req2 wd2)"
    unfolding s by (rule handle_fst_world)
qed

text \<open>
  Claim C3, as the specification states it, fails: a successful \<open>/list\<close> of an empty
  directory leaves the error field empty although the message field is empty and the
  files field is absent, so none of the three is populated.
\<close>

theorem envelope_exactly_one_counterexample:
  "\<not> (Error (fst (serve exampleLib scenarioConfig List dataRequest emptyDirWorld)) \<noteq> [] \<longleftrightarrow>
        Message (fst (serve exampleLib scenarioConfig List dataRequest emptyDirWorld)) = [] \<and>
        Files (fst (serve exampleLib scenarioConfig List dataRequest emptyDirWorld)) = [])"
  using serve_List_listed [where wd = emptyDirWorld and cfg = scenarioConfig
      and L = exampleLib and req = dataRequest and entries = "[]", OF emptyDirWorld_nfs]
  by simp

lemma serve_envelope:
  assumes "serve L cfg ep req wd = (r, wd')"
  shows "Error r \<noteq> [] \<longleftrightarrow> err r \<noteq> None"
    and "Error r \<noteq> [] \<Longrightarrow> Message r = [] \<and> Files r = []"
    and "ep \<noteq> List \<Longrightarrow> Files r = [] \<and> (Error r \<noteq> [] \<longleftrightarrow> Message r = [])"
    and "ep = List \<Longrightarrow> Message r = []"
proof -
  obtain r0 wd1 where h: "serve L cfg ep req wd = handle L cfg r0 wd1"
    and e0: "Error r0 = []"
    and er: "err r0 \<noteq> None \<longrightarrow> Message r0 = [] \<and> Files r0 = []"
    and st: "ep \<noteq> List \<longrightarrow> Files r0 = [] \<and> (err r0 = None \<longleftrightarrow> Message r0 \<noteq> [])"
    and li: "ep = List \<longrightarrow> Message r0 = []"
    by (rule serve_handle)
  from h assms have hr: "handle L cfg r0 wd1 = (r, wd')" by simp
  note f = handle_fields [OF hr]
  show 1: "Error r \<noteq> [] \<longleftrightarrow> err r \<noteq> None" using f(2,5) e0 by simp
  show "Error r \<noteq> [] \<Longrightarrow> Message r = [] \<and> Files r = []" using 1 f(2,3,4) er by simp
  show "ep \<noteq> List \<Longrightarrow> Files r = [] \<and> (Error r \<noteq> [] \<longleftrightarrow> Message r = [])"
    using 1 f(2,3,4) st by auto
  show "ep = List \<Longrightarrow> Message r = []" using f(3) li by simp
qed

lemma listBody_list_failed:
  assumes "nfs wd (server cfg) (authParams cfg) (timeout cfg) = Inr client"
    and "client (if Query_Get req ''path'' = [] then ''/'' else Query_Get req ''path'') = Inl e"
  shows "listBody L cfg r req wd =
           (r\<lparr>err := Some (''Error reading dir '' @
                Quote L (if Query_Get req ''path'' = [] then ''/'' else Query_Get req ''path'') @
                '': '' @ e)\<rparr>,
            wd\<lparr>nfsOps := nfsOps wd @ [(server cfg, authParams cfg)]\<rparr>)"
  using assms by (simp add: listBody_def NewNfsClient_def Let_def)

lemma serve_List_list_failed:
  assumes "nfs wd (server cfg) (authParams cfg) (timeout cfg) = Inr client"
    and "client (if Query_Get req ''path'' = [] then ''/'' else Query_Get req ''path'') = Inl e"
  shows "err (fst (serve L cfg List req wd)) \<noteq> None"
proof -
  have "handle L cfg ((newResponse newWriter)\<lparr>err := Some (''Error reading dir '' @
                Quote L (if Query_Get req ''path'' = [] then ''/'' else Query_Get req ''path'') @
                '': '' @ e)\<rparr>)
          (wd\<lparr>nfsOps := nfsOps wd @ [(server cfg, authParams cfg)]\<rparr>) =
        (fst (serve L cfg List req wd), snd (serve L cfg List req wd))"
    by (simp add: listHandler_def listBody_list_failed [OF assms])
  from handle_fields(2) [OF this] show ?thesis by simp
qed

text \<open>What \<open>/list\<close> leaves in the envelope, by the outcome of the connection and of the listing.\<close>

lemma serve_List_outcomes:
  assumes "serve L cfg List req wd = (r, wd')"
  shows "nfs wd (server cfg) (authParams cfg) (timeout cfg) = Inl e \<Longrightarrow> Error r \<noteq> []"
    and "nfs wd (server cfg) (authParams cfg) (timeout cfg) = Inr client \<Longrightarrow>
         client (if Query_Get req ''path'' = [] then ''/'' else Query_Get req ''path'') = Inl e \<Longrightarrow>
         Error r \<noteq> []"
    and "nfs wd (server cfg) (authParams cfg) (timeout cfg) = Inr client \<Longrightarrow>
         client (if Query_Get req ''path'' = [] then ''/'' else Query_Get req ''path'') =
           Inr listing \<Longrightarrow>
         Error r = [] \<and> Files r = listing"
proof -
  from assms have r: "fst (serve L cfg List req wd) = r" by simp
  note i = serve_envelope(1) [OF assms]
  show "Error r \<noteq> []" if "nfs wd (server cfg) (authParams cfg) (timeout cfg) = Inl e"
    using serve_List_unreachable [OF that, of L req] i unfolding r by simp
  show "Error r \<noteq> []"
    if "nfs wd (server cfg) (authParams cfg) (timeout cfg) = Inr client"
      and "client (if Query_Get req ''path'' = [] then ''/'' else Query_Get req ''path'') = Inl e"
    using serve_List_list_failed [OF that, of L] i unfolding r by simp
  show "Error r = [] \<and> Files r = listing"
    if "nfs wd (server cfg) (authParams cfg) (timeout cfg) = Inr client"
      and "client (if Query_Get req ''path'' = [] then ''/'' else Query_Get req ''path'') =
           Inr listing"
    using serve_List_listed(2,4) [OF that, of L] unfolding r by simp
qed

text \<open>
  Claim C3, as amended. On every request to an envelope endpoint the error field is
  non-empty exactly when the handler recorded an error, and then the message field is
  empty and the files field is absent. For \<open>/write-storage\<close> and \<open>/read-storage\<close>
  exactly one of error and message is populated and files is always absent. \<open>/list\<close>
  never sets a message: when the connection or the listing fails its error field is
  populated, and when both succeed its error field is empty and its files field holds the
  listing as the server gave it, so that all three fields are empty exactly when the
  listed directory is empty.
\<close>

theorem envelope_mutually_exclusive:
  assumes "serve L cfg ep req wd = (r, wd')"
  shows "(Error r \<noteq> [] \<longleftrightarrow> err r \<noteq> None) \<and>
         (Error r \<noteq> [] \<longrightarrow> Message r = [] \<and> Files r = []) \<and>
         (ep \<noteq> List \<longrightarrow> Files r = [] \<and> (Error r \<noteq> [] \<longleftrightarrow> Message r = [])) \<and>
         (ep = List \<longrightarrow>
            Message r = [] \<and>
            (\<forall>e. nfs wd (server cfg) (authParams cfg) (timeout cfg) = Inl e \<longrightarrow> Error r \<noteq> []) \<and>
            (\<forall>client.
               nfs wd (server cfg) (authParams cfg) (timeout cfg) = Inr client \<longrightarrow>
               (\<forall>e. client (if Query_Get req ''path'' = [] then ''/''
                              else Query_Get req ''path'') = Inl e \<longrightarrow>
                    Error r \<noteq> []) \<and>
               (\<forall>listing. client (if Query_Get req ''path'' = [] then ''/''
                                    else Query_Get req ''path'') = Inr listing \<longrightarrow>
                    Error r = [] \<and> Files r = listing)))"
proof (cases "ep = List")
  case True
  with assms have l: "serve L cfg List req wd = (r, wd')" by simp
  from serve_envelope [OF assms] serve_List_outcomes [OF l] True show ?thesis by blast
next
  case False
  with serve_envelope [OF assms] show ?thesis by blast
qed

lemma listingWorld_nfs:
  "nfs listingWorld srv auth tmo = Inr (\<lambda>path. Inr exampleFiles)"
  by (simp add: listingWorld_def)

theorem envelope_mutually_exclusive_witness:
  "Error (fst (serve exampleLib scenarioConfig WriteStorage dataRequest unreachableWorld)) =
     ''something went wrong'' \<and>
   err (fst (serve exampleLib scenarioConfig WriteStorage dataRequest unreachableWorld)) =
     Some ''no storage path set via STORAGE_PATH env variable'' \<and>
   Message (fst (serve exampleLib scenarioConfig WriteStorage dataRequest unreachableWorld)) = [] \<and>
   Files (fst (serve exampleLib scenarioConfig WriteStorage dataRequest unreachableWorld)) = [] \<and>
   nfs listingWorld (server scenarioConfig) (authParams scenarioConfig) (timeout scenarioConfig) =
     Inr (\<lambda>path. Inr exampleFiles) \<and>
   Error (fst (serve exampleLib scenarioConfig List dataRequest listingWorld)) = [] \<and>
   Message (fst (serve exampleLib scenarioConfig List dataRequest listingWorld)) = [] \<and>
   Files (fst (serve exampleLib scenarioConfig List dataRequest listingWorld)) = exampleFiles \<and>
   exampleFiles \<noteq> []"
proof -
  have e: "err (fst (serve exampleLib scenarioConfig WriteStorage dataRequest unreachableWorld)) =
     Some ''no storage path set via STORAGE_PATH env variable''"
    by (rule storage_no_path_result(1)) (simp_all add: scenarioConfig_fields)
  from serve_response(4) [OF prod.collapse [symmetric],
      of exampleLib scenarioConfig WriteStorage dataRequest unreachableWorld] e
  have x: "Error (fst (serve exampleLib scenarioConfig WriteStorage dataRequest unreachableWorld)) =
     ''something went wrong''"
    by simp
  then have "Error (fst (serve exampleLib scenarioConfig WriteStorage dataRequest
      unreachableWorld)) \<noteq> []"
    by simp
  with envelope_mutually_exclusive [OF prod.collapse [symmetric],
      of exampleLib scenarioConfig WriteStorage dataRequest unreachableWorld]
  have w: "Message (fst (serve exampleLib scenarioConfig WriteStorage dataRequest
          unreachableWorld)) = [] \<and>
        Files (fst (serve exampleLib scenarioConfig WriteStorage dataRequest
          unreachableWorld)) = []"
    by blast
  note t = envelope_mutually_exclusive [OF prod.collapse [symmetric],
      of exampleLib scenarioConfig List dataRequest listingWorld]
  have n: "nfs listingWorld (server scenarioConfig) (authParams scenarioConfig)
      (timeout scenarioConfig) = Inr (\<lambda>path. Inr exampleFiles)"
    by (rule listingWorld_nfs)
  have c: "(\<lambda>path. Inr exampleFiles :: error + FileInfo list)
      (if Query_Get dataRequest ''path'' = [] then ''/'' else Query_Get dataRequest ''path'') =
      Inr exampleFiles"
    by simp
  from t have m: "Message (fst (serve exampleLib scenarioConfig List dataRequest listingWorld)) = []"
    by blast
  from t n c
  have l: "Error (fst (serve exampleLib scenarioConfig List dataRequest listingWorld)) = [] \<and>
      Files (fst (serve exampleLib scenarioConfig List dataRequest listingWorld)) = exampleFiles"
    by blast
  have f: "exampleFiles \<noteq> []" by (simp add: exampleFiles_def)
  from x e w n m l f show ?thesis by blast
qed

text \<open>
  Claim C4. With no \<open>STORAGE_PATH\<close>, every call of \<open>/write-storage\<close> and of
  \<open>/read-storage\<close>, in any world, records the error "no storage path set", answers
  with status 500 and leaves the world as it was but for the one log record: no file
  operation is issued and no file changes. The response is the same on every call.
\<close>

theorem storage_path_unset:
  assumes "storagePathEnv cfg = []" and "ep = WriteStorage \<or> ep = ReadStorage"
  shows "err (fst (serve L cfg ep req wd)) =
           Some ''no storage path set via STORAGE_PATH env variable'' \<and>
         status (writer (fst (serve L cfg ep req wd))) = Some 500 \<and>
         snd (serve L cfg ep req wd) =
           logTo (logger cfg LevelError
                    ''no storage path set via STORAGE_PATH env variable'' []) wd \<and>
         fs (snd (serve L cfg ep req wd)) = fs wd \<and>
         fsOps (snd (serve L cfg ep req wd)) = fsOps wd \<and>
         fst (serve L cfg ep req wd) = fst (serve L cfg ep req2 wd2)"
proof -
  note r = storage_no_path_result [OF assms, of L req wd]
  from serve_response(3) [OF prod.collapse [symmetric], of L cfg ep req wd] r(1)
  have "status (writer (fst (serve L cfg ep req wd))) = Some 500" by simp
  moreover have "fs (snd (serve L cfg ep req wd)) = fs wd"
    and "fsOps (snd (serve L cfg ep req wd)) = fsOps wd"
    unfolding r(2) by (simp_all add: logTo_def)
  ultimately show ?thesis using r by blast
qed

theorem storage_path_unset_witness:
  "storagePathEnv scenarioConfig = [] \<and>
   err (fst (serve exampleLib scenarioConfig ReadStorage dataRequest unreachableWorld)) =
     Some ''no storage path set via STORAGE_PATH env variable'' \<and>
   status (writer (fst (serve exampleLib scenarioConfig ReadStorage dataRequest
     unreachableWorld))) = Some 500 \<and>
   fsOps (snd (serve exampleLib scenarioConfig ReadStorage dataRequest unreachableWorld)) = [] \<and>
   logs (snd (serve exampleLib scenarioConfig ReadStorage dataRequest unreachableWorld)) =
     [logger scenarioConfig LevelError
        ''no storage path set via STORAGE_PATH env variable'' []]"
proof -
  have p: "storagePathEnv scenarioConfig = []" by (simp add: scenarioConfig_fields)
  have w: "fsOps unreachableWorld = []" "logs unreachableWorld = []"
    by (simp_all add: unreachableWorld_def)
  note t = storage_path_unset [OF p, of ReadStorage exampleLib dataRequest unreachableWorld]
  have "ReadStorage = WriteStorage \<or> ReadStorage = ReadStorage" by simp
  note u = t [OF this]
  from u have l0: "logs (snd (serve exampleLib scenarioConfig ReadStorage dataRequest
      unreachableWorld)) =
      logs (logTo (logger scenarioConfig LevelError
        ''no storage path set via STORAGE_PATH env variable'' []) unreachableWorld)"
    by simp
  have l: "logs (snd (serve exampleLib scenarioConfig ReadStorage dataRequest
      unreachableWorld)) =
     [logger scenarioConfig LevelError
        ''no storage path set via STORAGE_PATH env variable'' []]"
    unfolding l0 by (simp add: logTo_def w)
  from u have a: "err (fst (serve exampleLib scenarioConfig ReadStorage dataRequest
      unreachableWorld)) = Some ''no storage path set via STORAGE_PATH env variable''"
    by (rule conjunct1)
  from u have b: "status (writer (fst (serve exampleLib scenarioConfig ReadStorage dataRequest
     unreachableWorld))) = Some 500"
    by blast
  from u have "fsOps (snd (serve exampleLib scenarioConfig ReadStorage dataRequest
      unreachableWorld)) = fsOps unreachableWorld"
    by blast
  then have c: "fsOps (snd (serve exampleLib scenarioConfig ReadStorage dataRequest
      unreachableWorld)) = []"
    unfolding w .
  from p a b c l show ?thesis by blast
qed

section \<open>Writing and reading the stored timestamp\<close>

lemma writeStorageBody_ok:
  assumes "storagePathEnv cfg \<noteq> []" and "writeStorageBody cfg r wd = (r1, wd1)"
    and "err r = None" and "err r1 = None"
  shows "fileContent (fs wd1) (storagePathEnv cfg) = Some (Format_RFC3339 (now wd))"
    and "Message r1 = ''current time written to store: '' @ Format_RFC3339 (now wd)"
    and "fsOps wd1 = fsOps wd @ [OpWriteFile (storagePathEnv cfg) (Format_RFC3339 (now wd))]"
  using assms
  by (auto simp: writeStorageBody_def WriteFile_def Let_def split: option.splits)

lemma readStorageBody_ok:
  assumes "storagePathEnv cfg \<noteq> []" and "readError (fs wd) (storagePathEnv cfg) = None"
    and "fileContent (fs wd) (storagePathEnv cfg) = Some data"
  shows "readStorageBody cfg r wd =
           (r\<lparr>Message := ''last time written to store: '' @ data\<rparr>,
            wd\<lparr>fsOps := fsOps wd @ [OpReadFile (storagePathEnv cfg)]\<rparr>)"
  using assms by (simp add: readStorageBody_def ReadFile_def Let_def)

lemma serve_WriteStorage_ok:
  assumes "storagePathEnv cfg \<noteq> []" and "serve L cfg WriteStorage req wd = (r1, wd1)"
    and "err r1 = None"
  shows "fileContent (fs wd1) (storagePathEnv cfg) = Some (Format_RFC3339 (now wd))"
    and "Message r1 = ''current time written to store: '' @ Format_RFC3339 (now wd)"
proof -
  obtain r0 wd0 where b: "writeStorageBody cfg (newResponse newWriter) wd = (r0, wd0)"
    by (cases "writeStorageBody cfg (newResponse newWriter) wd")
  with assms(2) have h: "handle L cfg r0 wd0 = (r1, wd1)" by (simp add: writeStorage_def)
  from handle_fields(2) [OF h] assms(3) have e: "err r0 = None" by simp
  have n: "err (newResponse newWriter) = None" by (simp add: newResponse_def)
  note w = writeStorageBody_ok [OF assms(1) b n e]
  show "fileContent (fs wd1) (storagePathEnv cfg) = Some (Format_RFC3339 (now wd))"
    using w(1) handle_world(2) [OF h] by simp
  show "Message r1 = ''current time written to store: '' @ Format_RFC3339 (now wd)"
    using w(2) handle_fields(3) [OF h] by simp
qed

lemma serve_ReadStorage_ok:
  assumes "storagePathEnv cfg \<noteq> []" and "readError (fs wd) (storagePathEnv cfg) = None"
    and "fileContent (fs wd) (storagePathEnv cfg) = Some data"
    and "serve L cfg ReadStorage req wd = (r, wd')"
  shows "err r = None" and "Message r = ''last time written to store: '' @ data"
    and "status (writer r) = Some 200"
proof -
  from assms(4) have h: "handle L cfg
      ((newResponse newWriter)\<lparr>Message := ''last time written to store: '' @ data\<rparr>)
      (wd\<lparr>fsOps := fsOps wd @ [OpReadFile (storagePathEnv cfg)]\<rparr>) = (r, wd')"
    by (simp add: readStorage_def readStorageBody_ok [OF assms(1-3)])
  show e: "err r = None" using handle_fields(2) [OF h] by (simp add: newResponse_def)
  show "Message r = ''last time written to store: '' @ data"
    using handle_fields(3) [OF h] by simp
  show "status (writer r) = Some 200"
    using serve_response(3) [OF assms(4)] e by simp
qed

text \<open>
  Claim C5. With a storage path configured, let \<open>/write-storage\<close> succeed in a world
  \<open>wd\<close>, and let \<open>/read-storage\<close> run later in a world where the file at the path is
  as the write left it and can be read. Then the write stored the RFC 3339 rendering of the
  time of the write as the whole content of the file and reported it in its message, and
  the read succeeds with status 200 and a message that ends with exactly that text. The
  text is parseable: read back as an RFC 3339 date-time it gives the time of the write.
\<close>

theorem write_then_read_storage:
  assumes "storagePathEnv cfg \<noteq> []"
    and "serve L cfg WriteStorage req wd = (r1, wd1)" and "err r1 = None"
    and "fileContent (fs wd2) (storagePathEnv cfg) = fileContent (fs wd1) (storagePathEnv cfg)"
    and "readError (fs wd2) (storagePathEnv cfg) = None"
    and "serve L cfg ReadStorage req2 wd2 = (r2, wd3)"
  shows "fileContent (fs wd1) (storagePathEnv cfg) = Some (Format_RFC3339 (now wd)) \<and>
         Message r1 = ''current time written to store: '' @ Format_RFC3339 (now wd) \<and>
         err r2 = None \<and> status (writer r2) = Some 200 \<and>
         Message r2 = ''last time written to store: '' @ Format_RFC3339 (now wd) \<and>
         (validTime (now wd) \<longrightarrow> Parse_RFC3339 (Format_RFC3339 (now wd)) = Some (now wd))"
proof -
  note w = serve_WriteStorage_ok [OF assms(1-3)]
  from w(1) assms(4)
  have c: "fileContent (fs wd2) (storagePathEnv cfg) = Some (Format_RFC3339 (now wd))" by simp
  note r = serve_ReadStorage_ok [OF assms(1) assms(5) c assms(6)]
  from w r Format_RFC3339_parse [of "now wd"] show ?thesis by blast
qed


lemma Format_exampleTime: "Format_RFC3339 exampleTime = ''2026-11-01T18:31:05+01:00''"
  by (simp add: Format_RFC3339_def exampleTime_def appendInt_def formatZone_def itoa.simps
        digit_def)

lemma validTime_exampleTime: "validTime exampleTime"
  by (simp add: validTime_def exampleTime_def daysIn_def isLeap_def)

lemma write_example:
  "writeStorageBody storageConfig (newResponse newWriter) unreachableWorld =
     ((newResponse newWriter)
        \<lparr>Message := ''current time written to store: '' @ ''2026-11-01T18:31:05+01:00''\<rparr>,
      unreachableWorld
        \<lparr>fsOps := [OpWriteFile ''/data/ts'' ''2026-11-01T18:31:05+01:00''],
         fs := emptyFs\<lparr>fileContent := [''/data/ts'' \<mapsto> ''2026-11-01T18:31:05+01:00'']\<rparr>\<rparr>)"
  by (simp add: writeStorageBody_def WriteFile_def Let_def storageConfig_fields
        unreachableWorld_def emptyFs_def Format_exampleTime)

theorem write_then_read_storage_witness:
  "storagePathEnv storageConfig = ''/data/ts'' \<and>
   err (fst (serve exampleLib storageConfig WriteStorage dataRequest unreachableWorld)) = None \<and>
   readError (fs (snd (serve exampleLib storageConfig WriteStorage dataRequest unreachableWorld)))
     ''/data/ts'' = None \<and>
   fileContent (fs (snd (serve exampleLib storageConfig WriteStorage dataRequest
     unreachableWorld))) ''/data/ts'' = Some ''2026-11-01T18:31:05+01:00'' \<and>
   Message (fst (serve exampleLib storageConfig ReadStorage dataRequest
     (snd (serve exampleLib storageConfig WriteStorage dataRequest unreachableWorld)))) =
     ''last time written to store: 2026-11-01T18:31:05+01:00'' \<and>
   status (writer (fst (serve exampleLib storageConfig ReadStorage dataRequest
     (snd (serve exampleLib storageConfig WriteStorage dataRequest unreachableWorld))))) =
     Some 200 \<and>
   validTime exampleTime \<and>
   Parse_RFC3339 ''2026-11-01T18:31:05+01:00'' = Some exampleTime"
proof -
  let ?w = "serve exampleLib storageConfig WriteStorage dataRequest unreachableWorld"
  let ?r = "serve exampleLib storageConfig ReadStorage dataRequest (snd ?w)"
  have p: "storagePathEnv storageConfig = ''/data/ts''" by (simp add: storageConfig_fields)
  have p0: "storagePathEnv storageConfig \<noteq> []" by (simp add: storageConfig_fields)
  have n: "now unreachableWorld = exampleTime" by (simp add: unreachableWorld_def)
  have h: "handle exampleLib storageConfig
      ((newResponse newWriter)
        \<lparr>Message := ''current time written to store: '' @ ''2026-11-01T18:31:05+01:00''\<rparr>)
      (unreachableWorld
        \<lparr>fsOps := [OpWriteFile ''/data/ts'' ''2026-11-01T18:31:05+01:00''],
         fs := emptyFs\<lparr>fileContent := [''/data/ts'' \<mapsto> ''2026-11-01T18:31:05+01:00'']\<rparr>\<rparr>) =
      (fst ?w, snd ?w)"
    by (simp add: writeStorage_def write_example)
  have e: "err (fst ?w) = None"
    using handle_fields(2) [OF h] by (simp add: newResponse_def)
  have f: "readError (fs (snd ?w)) (storagePathEnv storageConfig) = None"
    using handle_world(2) [OF h] by (simp add: emptyFs_def p)
  note t = write_then_read_storage [OF p0 prod.collapse [symmetric] e refl f
      prod.collapse [symmetric]]
  from t have c: "fileContent (fs (snd ?w)) (storagePathEnv storageConfig) =
      Some (Format_RFC3339 (now unreachableWorld))"
    by (rule conjunct1)
  from t have m: "Message (fst ?r) =
      ''last time written to store: '' @ Format_RFC3339 (now unreachableWorld)"
    by blast
  from t have s: "status (writer (fst ?r)) = Some 200" by blast
  from t validTime_exampleTime
  have r: "Parse_RFC3339 (Format_RFC3339 (now unreachableWorld)) = Some (now unreachableWorld)"
    unfolding n by blast
  have 1: "fileContent (fs (snd ?w)) ''/data/ts'' = Some ''2026-11-01T18:31:05+01:00''"
    using c unfolding p n Format_exampleTime .
  have 2: "Message (fst ?r) = ''last time written to store: 2026-11-01T18:31:05+01:00''"
    using m unfolding n Format_exampleTime by simp
  have 3: "Parse_RFC3339 ''2026-11-01T18:31:05+01:00'' = Some exampleTime"
    using r unfolding n Format_exampleTime .
  have 4: "readError (fs (snd ?w)) ''/data/ts'' = None" using f unfolding p .
  from p e 4 1 2 s validTime_exampleTime 3 show ?thesis by blast
qed

section \<open>The identity values UID and GID\<close>

lemma unat_uint32: "unat (uint32 x) = nat (x mod 2 ^ 32)"
  by (simp add: uint32_def unat_eq_nat_uint uint_word_of_int take_bit_eq_mod)

lemma Atoi_minus_one: "Atoi ''-1'' = Inr (- 1)"
  by (simp add: Atoi_def ParseInt_def ParseUint_def isDigit_def digitVal_def maxUint64_def)

lemma Atoi_range: "Atoi s = Inr i \<Longrightarrow> - (2 ^ 63) \<le> i \<and> i < 2 ^ 63"
  by (auto simp: Atoi_def ParseInt_def Let_def split: sum.splits if_splits)

lemma nfsOps_handle: "nfsOps (snd (handle L cfg r wd)) = nfsOps wd"
  using handle_world(5) [OF prod.collapse [symmetric]] .

lemma listHandler_nfsOps:
  "nfsOps (snd (listHandler L cfg w req wd)) = nfsOps wd @ [(server cfg, authParams cfg)]"
  by (simp add: listHandler_def listBody_def NewNfsClient_def Let_def nfsOps_handle
        split: sum.splits prod.splits)

text \<open>The value of a digit string read from an accumulator, as the loop computes it.\<close>

lemma foldl_digits_ge: "n \<le> foldl (\<lambda>n c. n * 10 + digitVal c) n ds"
proof (induction ds arbitrary: n)
  case Nil
  show ?case by simp
next
  case (Cons c cs)
  have "n \<le> n * 10 + digitVal c" by simp
  also have "\<dots> \<le> foldl (\<lambda>n c. n * 10 + digitVal c) (n * 10 + digitVal c) cs"
    by (rule Cons.IH)
  finally show ?case by simp
qed

lemma parseUintLoop_digits:
  assumes "list_all isDigit ds" and "n \<le> maxUint64"
  shows "parseUintLoop n ds =
         (if foldl (\<lambda>n c. n * 10 + digitVal c) n ds \<le> maxUint64
          then Inr (foldl (\<lambda>n c. n * 10 + digitVal c) n ds) else Inl ErrRange)"
  using assms
proof (induction ds arbitrary: n)
  case Nil
  then show ?case by simp
next
  case (Cons c cs)
  let ?n1 = "n * 10 + digitVal c"
  from Cons.prems have d: "isDigit c" and ds: "list_all isDigit cs" by simp_all
  have ge: "?n1 \<le> foldl (\<lambda>n c. n * 10 + digitVal c) ?n1 cs" by (rule foldl_digits_ge)
  show ?case
  proof (cases "n \<ge> maxUint64 div 10 + 1")
    case True
    then have "maxUint64 < ?n1" by (simp add: maxUint64_def)
    with ge True d show ?thesis by simp
  next
    case False
    show ?thesis
    proof (cases "?n1 > maxUint64")
      case True
      with ge False d show ?thesis by (simp add: Let_def)
    next
      case n1: False
      then have "?n1 \<le> maxUint64" by simp
      from Cons.IH [OF ds this] False n1 d show ?thesis by (simp add: Let_def)
    qed
  qed
qed

lemma itoa_digits: "list_all isDigit (itoa m)"
proof (induction m rule: itoa.induct)
  case (1 n)
  show ?case
  proof (cases "n < 10")
    case True
    then show ?thesis by (simp add: itoa_1 isDigit_digit)
  next
    case False
    have "n mod 10 < 10" by simp
    with 1 [OF False] False show ?thesis
      by (subst itoa.simps) (simp add: isDigit_digit)
  qed
qed

lemma itoa_value: "foldl (\<lambda>n c. n * 10 + digitVal c) 0 (itoa m) = m"
proof (induction m rule: itoa.induct)
  case (1 n)
  show ?case
  proof (cases "n < 10")
    case True
    then show ?thesis by (simp add: itoa_1 digitVal_digit)
  next
    case False
    have "n mod 10 < 10" by simp
    then have "digitVal (digit (n mod 10)) = n mod 10" by (rule digitVal_digit)
    with 1 [OF False] False show ?thesis
      by (subst itoa.simps) simp
  qed
qed

lemma itoa_not_empty: "itoa m \<noteq> []"
  by (subst itoa.simps) simp

lemma isDigit_not_sign: "isDigit c \<Longrightarrow> c \<noteq> CHR ''-'' \<and> c \<noteq> CHR ''+''"
  by (auto simp: isDigit_def)

lemma itoa_hd: "hd (itoa m) \<noteq> CHR ''-'' \<and> hd (itoa m) \<noteq> CHR ''+''"
proof -
  have "hd (itoa m) \<in> set (itoa m)" using itoa_not_empty by (rule hd_in_set)
  with itoa_digits [of m] have "isDigit (hd (itoa m))" by (simp add: list_all_iff)
  then show ?thesis by (rule isDigit_not_sign)
qed

lemma ParseUint_itoa: "m \<le> maxUint64 \<Longrightarrow> ParseUint (itoa m) = Inr m"
  using parseUintLoop_digits [OF itoa_digits, of 0 m]
  by (simp add: ParseUint_def itoa_not_empty itoa_value)

text \<open>Every 64-bit integer, written in decimal, is accepted with its value.\<close>

lemma Atoi_fmt_d:
  assumes "- (2 ^ 63) \<le> i" and "i < 2 ^ 63"
  shows "Atoi (fmt_d i) = Inr i"
proof (cases "i < 0")
  case False
  then have m: "nat i \<le> maxUint64" "\<not> nat i \<ge> 2 ^ 63" using assms(2)
    by (simp_all add: maxUint64_def)
  from False have "fmt_d i = itoa (nat i)" by (simp add: fmt_d_def)
  then show ?thesis
    using False m itoa_hd [of "nat i"] ParseUint_itoa [OF m(1)]
    by (simp add: Atoi_def ParseInt_def itoa_not_empty)
next
  case True
  then have m: "nat (- i) \<le> maxUint64" "\<not> nat (- i) > 2 ^ 63" using assms(1)
    by (simp_all add: maxUint64_def)
  from True have "fmt_d i = CHR ''-'' # itoa (nat (- i))" by (simp add: fmt_d_def)
  then show ?thesis
    using True m ParseUint_itoa [OF m(1)]
    by (simp add: Atoi_def ParseInt_def)
qed


lemma Atoi_big: "Atoi ''4294967296'' = Inr 4294967296"
  by (simp add: Atoi_def ParseInt_def ParseUint_def isDigit_def digitVal_def maxUint64_def)

text \<open>
  Claim C10. \<open>UID\<close> and \<open>GID\<close> are accepted whenever \<open>strconv.Atoi\<close> reads them
  as 64-bit integers, and every 64-bit integer written in decimal is read so, negative
  ones and ones beyond 32 bits included. The \<open>/list\<close> handler converts both with
  \<open>uint32\<close>, which keeps the value modulo \<open>2 ^ 32\<close>, and opens the NFS connection
  with the converted values.
\<close>

theorem uid_gid_truncated:
  assumes "server g \<noteq> []" and "share g \<noteq> []"
    and "ParseDuration L (timeoutEnv (applyDefaults g)) = Inr t"
    and "Atoi (uidEnv g) = Inr u" and "Atoi (gidEnv g) = Inr gi"
  shows "\<exists>cfg. main_init L g = Inr cfg \<and> uid cfg = u \<and> gid cfg = gi \<and>
           - (2 ^ 63) \<le> u \<and> u < 2 ^ 63 \<and> - (2 ^ 63) \<le> gi \<and> gi < 2 ^ 63 \<and>
           unat (Uid (authParams cfg)) = nat (u mod 2 ^ 32) \<and>
           unat (Gid (authParams cfg)) = nat (gi mod 2 ^ 32) \<and>
           (\<forall>w req wd. nfsOps (snd (listHandler L cfg w req wd)) =
                          nfsOps wd @ [(server cfg, authParams cfg)]) \<and>
           (\<forall>i. - (2 ^ 63) \<le> i \<and> i < 2 ^ 63 \<longrightarrow> Atoi (fmt_d i) = Inr i)"
proof -
  let ?cfg = "globals.extend (applyDefaults g) (config.fields t u gi)"
  have d: "uidEnv (applyDefaults g) = uidEnv g" "gidEnv (applyDefaults g) = gidEnv g"
    by (simp_all add: applyDefaults_def)
  have m: "main_init L g = Inr ?cfg"
    using assms by (simp add: main_init_def Let_def d)
  have f: "uid ?cfg = u" "gid ?cfg = gi"
    by (simp_all add: config.defs globals.defs)
  have a: "unat (Uid (authParams ?cfg)) = nat (u mod 2 ^ 32)"
    "unat (Gid (authParams ?cfg)) = nat (gi mod 2 ^ 32)"
    unfolding authParams_def f by (simp_all add: unat_uint32)
  note r = Atoi_range [OF assms(4)] Atoi_range [OF assms(5)]
  from m f a r listHandler_nfsOps Atoi_fmt_d show ?thesis by blast
qed

theorem uid_gid_truncated_witness:
  "Atoi (uidEnv storageGlobals) = Inr (- 1) \<and> Atoi (gidEnv storageGlobals) = Inr 4294967296 \<and>
   Atoi (fmt_d (- 9223372036854775808)) = Inr (- 9223372036854775808) \<and>
   main_init exampleLib storageGlobals = Inr storageConfig \<and>
   unat (Uid (authParams storageConfig)) = 4294967295 \<and>
   unat (Gid (authParams storageConfig)) = 0 \<and>
   nfsOps (snd (listHandler exampleLib storageConfig newWriter dataRequest unreachableWorld)) =
     [(''10.0.0.1'', authParams storageConfig)]"
proof -
  have g: "server storageGlobals \<noteq> []" "share storageGlobals \<noteq> []"
    "ParseDuration exampleLib (timeoutEnv (applyDefaults storageGlobals)) = Inr 20000000000"
    by (simp_all add: storageGlobals_def scenarioGlobals_def applyDefaults_def orDefault_def
          exampleLib_def)
  have u: "Atoi (uidEnv storageGlobals) = Inr (- 1)"
    by (simp add: storageGlobals_def Atoi_minus_one)
  have gi: "Atoi (gidEnv storageGlobals) = Inr 4294967296"
    by (simp add: storageGlobals_def Atoi_big)
  from uid_gid_truncated [OF g u gi] obtain cfg where
    c: "main_init exampleLib storageGlobals = Inr cfg"
    and a: "unat (Uid (authParams cfg)) = nat (- 1 mod 2 ^ 32)"
      "unat (Gid (authParams cfg)) = nat (4294967296 mod 2 ^ 32)"
    and n: "\<And>w req wd. nfsOps (snd (listHandler exampleLib cfg w req wd)) =
                          nfsOps wd @ [(server cfg, authParams cfg)]"
    and d: "\<And>i. - (2 ^ 63) \<le> i \<and> i < 2 ^ 63 \<Longrightarrow> Atoi (fmt_d i) = Inr i"
    by blast
  have m: "Atoi (fmt_d (- 9223372036854775808)) = Inr (- 9223372036854775808)"
    by (rule d) simp
  from c have cfg: "cfg = storageConfig" by (simp add: main_init_storage)
  have "nfsOps unreachableWorld = []" by (simp add: unreachableWorld_def)
  with n [of newWriter dataRequest unreachableWorld]
  have "nfsOps (snd (listHandler exampleLib storageConfig newWriter dataRequest
      unreachableWorld)) = [(''10.0.0.1'', authParams storageConfig)]"
    unfolding cfg by (simp add: storageConfig_fields)
  moreover from a have "unat (Uid (authParams storageConfig)) = 4294967295"
    "unat (Gid (authParams storageConfig)) = 0"
    unfolding cfg by simp_all
  ultimately show ?thesis using u gi m main_init_storage by blast
qed

section \<open>The store and the probe loops\<close>

lemma fold_max_ge: "(a::int) \<le> fold max xs a"
proof (induction xs arbitrary: a)
  case Nil
  show ?case by simp
next
  case (Cons x xs)
  have "a \<le> max x a" by simp
  also have "\<dots> \<le> fold max xs (max x a)" by (rule Cons.IH)
  finally show ?case by simp
qed

lemma fold_max_mem: "x \<in> set xs \<Longrightarrow> (x::int) \<le> fold max xs a"
proof (induction xs arbitrary: a)
  case Nil
  then show ?case by simp
next
  case (Cons y ys)
  show ?case
  proof (cases "x = y")
    case True
    have "x \<le> max y a" using True by simp
    also have "\<dots> \<le> fold max ys (max y a)" by (rule fold_max_ge)
    finally show ?thesis by simp
  next
    case False
    with Cons.prems have "x \<in> set ys" by simp
    from Cons.IH [OF this] show ?thesis by simp
  qed
qed

lemma fold_max_bound: "(\<And>x. x \<in> set xs \<Longrightarrow> x \<le> a) \<Longrightarrow> fold max xs a = (a::int)"
proof (induction xs)
  case Nil
  show ?case by simp
next
  case (Cons y ys)
  then have "max y a = a" by simp
  with Cons show ?case by simp
qed

lemma largestRowid_seq: "seq t \<le> largestRowid t"
  unfolding largestRowid_def by (rule fold_max_ge)

lemma largestRowid_row: "e \<in> set (rows t) \<Longrightarrow> entry_id e \<le> largestRowid t"
  unfolding largestRowid_def by (rule fold_max_mem) simp

lemma largestRowid_insert:
  "largestRowid \<lparr>rows = rows t @ [e\<lparr>entry_id := largestRowid t + 1\<rparr>],
                  seq = largestRowid t + 1\<rparr> = largestRowid t + 1"
proof -
  have "fold max (map entry_id (rows t)) (largestRowid t + 1) = largestRowid t + 1"
  proof (rule fold_max_bound)
    fix x assume "x \<in> set (map entry_id (rows t))"
    then obtain r where "r \<in> set (rows t)" "x = entry_id r" by auto
    with largestRowid_row [of r t] show "x \<le> largestRowid t + 1" by simp
  qed
  then show ?thesis by (simp add: largestRowid_def)
qed

text \<open>What one insert does to the table: nothing, or one new last row.\<close>

lemma Exec_insert_cases:
  assumes "Exec_insert p d pl f t = (e, t1)"
  shows "(e \<noteq> None \<and> t1 = t) \<or>
         (e = None \<and>
          rows t1 = rows t @ [\<lparr>entry_id = largestRowid t + 1, pod = p, ts = d, payload = Some pl\<rparr>] \<and>
          largestRowid t1 = largestRowid t + 1)"
proof (cases "f = None \<and> \<not> largestRowid t \<ge> maxRowid")
  case True
  with assms have e: "e = None"
    and t1: "t1 = \<lparr>rows = rows t @
                  [\<lparr>entry_id = largestRowid t + 1, pod = p, ts = d, payload = Some pl\<rparr>],
                seq = largestRowid t + 1\<rparr>"
    by (auto simp: Exec_insert_def)
  have "largestRowid t1 = largestRowid t + 1"
    unfolding t1
    using largestRowid_insert [of t "\<lparr>entry_id = 0, pod = p, ts = d, payload = Some pl\<rparr>"]
    by simp
  with e t1 show ?thesis by simp
next
  case False
  with assms show ?thesis by (auto simp: Exec_insert_def split: option.splits if_splits)
qed


lemma writeCycle_cases:
  "(fst (writeCycle cfg i t) \<noteq> [] \<and> snd (writeCycle cfg i t) = t) \<or>
   (fst (writeCycle cfg i t) = [] \<and>
    rows (snd (writeCycle cfg i t)) = rows t @ [entryOf cfg (largestRowid t + 1) i] \<and>
    largestRowid (snd (writeCycle cfg i t)) = largestRowid t + 1)"
proof -
  obtain e t1 where x: "Exec_insert (podNameEnv cfg) (datetimeNow i) (payloadOf i)
      (insertFault i) t = (e, t1)"
    by (cases "Exec_insert (podNameEnv cfg) (datetimeNow i) (payloadOf i) (insertFault i) t")
  from Exec_insert_cases [OF x] x show ?thesis
    by (auto simp: writeCycle_def entryOf_def)
qed

lemma step_rows:
  "rows (entriesTable (step L cfg s ev)) =
     rows (entriesTable s) @ newRows cfg (largestRowid (entriesTable s)) (insertedBy cfg s ev) \<and>
   largestRowid (entriesTable (step L cfg s ev)) =
     largestRowid (entriesTable s) + int (length (insertedBy cfg s ev))"
proof (cases ev)
  case (WriteSelect i)
  show ?thesis
  proof (cases "writeLoop s \<and> \<not> ctxDone s")
    case True
    with WriteSelect have t: "entriesTable (step L cfg s ev) = snd (writeCycle cfg i (entriesTable s))"
      by (simp split: prod.splits)
    from writeCycle_cases [of cfg i "entriesTable s"] True WriteSelect show ?thesis
      unfolding t by (auto simp: insertedBy_def)
  next
    case False
    with WriteSelect show ?thesis by (auto simp: insertedBy_def)
  qed
qed (simp_all add: insertedBy_def)

lemma newRows_append:
  "newRows cfg k (xs @ ys) = newRows cfg k xs @ newRows cfg (k + int (length xs)) ys"
  by (induction xs arbitrary: k) (simp_all add: add.assoc)

text \<open>
  The table after a run: the rows it had, then one row for each successful write tick,
  with consecutive ids above every id used before.
\<close>

lemma run_rows:
  "rows (entriesTable (run L cfg s evs)) =
     rows (entriesTable s) @ newRows cfg (largestRowid (entriesTable s)) (inserted L cfg s evs) \<and>
   largestRowid (entriesTable (run L cfg s evs)) =
     largestRowid (entriesTable s) + int (length (inserted L cfg s evs))"
proof (induction evs arbitrary: s)
  case Nil
  show ?case by (simp add: run_def)
next
  case (Cons ev evs)
  have r: "run L cfg s (ev # evs) = run L cfg (step L cfg s ev) evs" by (simp add: run_def)
  from Cons.IH [of "step L cfg s ev"] step_rows [of L cfg s ev] show ?case
    unfolding r by (simp add: newRows_append)
qed

lemma newRows_length: "length (newRows cfg k ws) = length ws"
  by (induction ws arbitrary: k) simp_all

lemma newRows_ids: "n \<in> set (newRows cfg k ws) \<Longrightarrow> k < entry_id n"
proof (induction ws arbitrary: k)
  case Nil
  then show ?case by simp
next
  case (Cons i ws)
  from Cons.prems consider "n = entryOf cfg (k + 1) i" | "n \<in> set (newRows cfg (k + 1) ws)"
    by auto
  then show ?case
  proof cases
    case 1
    then show ?thesis by (simp add: entryOf_def)
  next
    case 2
    from Cons.IH [OF this] show ?thesis by simp
  qed
qed

lemma newRows_sorted: "sorted_wrt (<) (map entry_id (newRows cfg k ws))"
proof (induction ws arbitrary: k)
  case Nil
  show ?case by simp
next
  case (Cons i ws)
  have "entry_id (entryOf cfg (k + 1) i) = k + 1" by (simp add: entryOf_def)
  with newRows_ids [of _ cfg "k + 1" ws] Cons.IH [of "k + 1"] show ?case by auto
qed

lemma newRows_last:
  "ws \<noteq> [] \<Longrightarrow> last (newRows cfg k ws) = entryOf cfg (k + int (length ws)) (last ws)"
proof (induction ws arbitrary: k)
  case Nil
  then show ?case by simp
next
  case (Cons i ws)
  show ?case
  proof (cases "ws = []")
    case True
    then show ?thesis by simp
  next
    case False
    then have "newRows cfg (k + 1) ws \<noteq> []"
      using newRows_length [of cfg "k + 1" ws] by auto
    with Cons.IH [OF False, of "k + 1"] False show ?thesis by (simp add: add.assoc)
  qed
qed

lemma lastById_sorted:
  "sorted_wrt (<) (map entry_id rs) \<Longrightarrow> rs \<noteq> [] \<Longrightarrow> lastById rs = Some (last rs)"
proof (induction rs)
  case Nil
  then show ?case by simp
next
  case (Cons e es)
  show ?case
  proof (cases "es = []")
    case True
    then show ?thesis by simp
  next
    case False
    from Cons.prems have s: "sorted_wrt (<) (map entry_id es)"
      and lt: "entry_id e < entry_id (last es)"
      using False by auto
    from Cons.IH [OF s False] lt False show ?thesis by simp
  qed
qed


lemma inserted_exampleRun:
  "inserted L cfg (startLoops t) exampleRun = [tick1, tick3]"
  if "largestRowid t + 2 < maxRowid" for t
proof -
  have a: "largestRowid t < maxRowid" "largestRowid t + 1 < maxRowid" using that by simp_all
  have w1: "writeCycle cfg tick1 t =
      ([], \<lparr>rows = rows t @ [entryOf cfg (largestRowid t + 1) tick1], seq = largestRowid t + 1\<rparr>)"
    using a by (simp add: writeCycle_def Exec_insert_def tick1_def entryOf_def)
  let ?t1 = "\<lparr>rows = rows t @ [entryOf cfg (largestRowid t + 1) tick1],
              seq = largestRowid t + 1\<rparr>"
  have l1: "largestRowid ?t1 = largestRowid t + 1"
    using largestRowid_insert [of t "entryOf cfg 0 tick1"] by (simp add: entryOf_def)
  have w2: "writeCycle cfg tick2 ?t1 =
      ([logger cfg LevelError ''WRITE error'' [(''error'', ErrorValue ''database is locked'')]], ?t1)"
    by (simp add: writeCycle_def Exec_insert_def tick2_def)
  have w3: "fst (writeCycle cfg tick3 ?t1) = []"
    using a l1 by (simp add: writeCycle_def Exec_insert_def tick3_def)
  show ?thesis
    by (simp add: exampleRun_def insertedBy_def startLoops_def w1 w2 w3)
qed


text \<open>The schema statement keeps a table that exists; only a new table is empty.\<close>

lemma createSchema_keeps: "createSchema (Some t) = t"
  by (simp add: createSchema_def)

lemma setupSqlite_table:
  "setupSqlite L readIntervalEnv writeIntervalEnv schemaFault st = Inr (ri, wi, t) \<Longrightarrow>
   t = createSchema st \<and> schemaFault = None"
  by (auto simp: setupSqlite_def split: sum.splits option.splits)

lemma largestRowid_fresh: "largestRowid (createSchema None) = 0"
  by (simp add: largestRowid_def createSchema_def)

lemma largestRowid_exampleTable: "largestRowid exampleTable = 7"
  by (simp add: largestRowid_def exampleTable_def)

text \<open>
  Claim C7. Whatever the two loops do, in any order and with any failures, the table
  after the run is the table before it followed by one row for each successful write
  tick: the ids of these rows are strictly increasing in insertion order and above the id
  of every row that was there before, and the rows that were there are still there,
  unchanged and in place, so that nothing written is ever updated or deleted.
\<close>

theorem ids_strictly_increasing:
  "rows (entriesTable (run L cfg s evs)) =
     rows (entriesTable s) @ newRows cfg (largestRowid (entriesTable s)) (inserted L cfg s evs) \<and>
   sorted_wrt (<) (map entry_id (newRows cfg (largestRowid (entriesTable s)) (inserted L cfg s evs))) \<and>
   (\<forall>e \<in> set (rows (entriesTable s)).
      \<forall>n \<in> set (newRows cfg (largestRowid (entriesTable s)) (inserted L cfg s evs)).
        entry_id e < entry_id n) \<and>
   prefix (rows (entriesTable s)) (rows (entriesTable (run L cfg s evs))) \<and>
   (sorted_wrt (<) (map entry_id (rows (entriesTable s))) \<longrightarrow>
    sorted_wrt (<) (map entry_id (rows (entriesTable (run L cfg s evs)))))"
proof -
  let ?new = "newRows cfg (largestRowid (entriesTable s)) (inserted L cfg s evs)"
  have r: "rows (entriesTable (run L cfg s evs)) = rows (entriesTable s) @ ?new"
    using run_rows [of L cfg s evs] by (rule conjunct1)
  have so: "sorted_wrt (<) (map entry_id ?new)" by (rule newRows_sorted)
  have above: "entry_id e < entry_id n"
    if "e \<in> set (rows (entriesTable s))" and "n \<in> set ?new" for e n
    using largestRowid_row [OF that(1)] newRows_ids [OF that(2)] by simp
  have p: "prefix (rows (entriesTable s)) (rows (entriesTable (run L cfg s evs)))"
    unfolding r by simp
  have all: "sorted_wrt (<) (map entry_id (rows (entriesTable (run L cfg s evs))))"
    if "sorted_wrt (<) (map entry_id (rows (entriesTable s)))"
    unfolding r using that so above by (auto simp: sorted_wrt_append)
  from r so above p all show ?thesis by blast
qed

theorem ids_strictly_increasing_witness:
  "rows (entriesTable (run exampleLib storageConfig (startLoops exampleTable) exampleRun)) =
     rows exampleTable @ [entryOf storageConfig 8 tick1, entryOf storageConfig 9 tick3] \<and>
   map entry_id (rows (entriesTable (run exampleLib storageConfig (startLoops exampleTable) exampleRun))) =
     [5, 8, 9] \<and>
   prefix (rows exampleTable)
     (rows (entriesTable (run exampleLib storageConfig (startLoops exampleTable) exampleRun)))"
proof -
  have i: "inserted exampleLib storageConfig (startLoops exampleTable) exampleRun = [tick1, tick3]"
    by (rule inserted_exampleRun) (simp add: largestRowid_exampleTable maxRowid_def)
  have t: "entriesTable (startLoops exampleTable) = exampleTable" by (simp add: startLoops_def)
  note th = ids_strictly_increasing [of exampleLib storageConfig "startLoops exampleTable" exampleRun]
  from th have r: "rows (entriesTable (run exampleLib storageConfig (startLoops exampleTable) exampleRun)) =
     rows exampleTable @ newRows storageConfig (largestRowid exampleTable) [tick1, tick3]"
    unfolding i t by (rule conjunct1)
  from th have p: "prefix (rows exampleTable)
     (rows (entriesTable (run exampleLib storageConfig (startLoops exampleTable) exampleRun)))"
    unfolding t by blast
  have n: "newRows storageConfig (largestRowid exampleTable) [tick1, tick3] =
     [entryOf storageConfig 8 tick1, entryOf storageConfig 9 tick3]"
    by (simp add: largestRowid_exampleTable)
  have 1: "rows (entriesTable (run exampleLib storageConfig (startLoops exampleTable) exampleRun)) =
     rows exampleTable @ [entryOf storageConfig 8 tick1, entryOf storageConfig 9 tick3]"
    using r unfolding n .
  have 2: "map entry_id (rows (entriesTable (run exampleLib storageConfig (startLoops exampleTable)
     exampleRun))) = [5, 8, 9]"
    unfolding 1 by (simp add: exampleTable_def entryOf_def)
  from 1 2 p show ?thesis by blast
qed


lemma parseDatetime_tick3:
  "parseDatetime ''2026-11-01 17:31:07'' =
     Some \<lparr>Year = 2026, Month = 11, Day = 1, Hour = 17, Minute = 31, Second = 7, ZoneOffset = 0\<rparr>"
  by (simp add: parseDatetime_def atoiN_def isDigit_def digitVal_def daysIn_def)

lemma columnTimeText_tick3:
  "columnTimeText L (datetimeNow tick3) = ''2026-11-01T17:31:07Z''"
  by (simp add: columnTimeText_def tick3_def trimZ_def parseDatetime_tick3 Format_RFC3339_def
        appendInt_def formatZone_def itoa.simps digit_def)

text \<open>
  The snapshot of a read tick on a table that is not empty: the count is 1, the other
  fields are those of the row of the largest id, the timestamp as the driver renders it.
\<close>

lemma readCycle_snapshot:
  assumes "rows t \<noteq> []" and "sorted_wrt (<) (map entry_id (rows t))"
    and "payload (last (rows t)) = Some pl"
  shows "readCycle L cfg None t =
         logger cfg LevelInfo ''successful read''
           [(''count'', IntValue 1),
            (''lastPod'', StringValue (pod (last (rows t)))),
            (''lastTimestamp'', StringValue (columnTimeText L (ts (last (rows t))))),
            (''lastPayload'', StringValue pl)]"
  using lastById_sorted [OF assms(2) assms(1)] assms(3)
  by (simp add: readCycle_def QueryRow_def Scan_def)

lemma readCycle_empty:
  assumes "rows t = []"
  shows "readCycle L cfg None t =
         logger cfg LevelError ''read error'' [(''error'', ErrorValue (scanNullError 1 ''pod''))]"
    and "level (readCycle L cfg f t) = LevelError \<and> msg (readCycle L cfg f t) = ''read error''"
  using assms
  by (auto simp: readCycle_def QueryRow_def Scan_def logger_def split: option.splits)

text \<open>
  After a run from the store as the schema statement creates it, with at least one
  successful insert, the next tick of the running read loop logs one snapshot: its pod,
  timestamp and payload are those of the last successful insert, and its count is 1
  however many inserts there were.
\<close>

lemma snapshot_after_run:
  assumes "inserted L cfg (startLoops (createSchema None)) evs \<noteq> []"
    and "readLoop (run L cfg (startLoops (createSchema None)) evs)"
  shows "logged (step L cfg (run L cfg (startLoops (createSchema None)) evs) (ReadTick None)) =
           logged (run L cfg (startLoops (createSchema None)) evs) @
           [logger cfg LevelInfo ''successful read''
              [(''count'', IntValue 1),
               (''lastPod'', StringValue (podNameEnv cfg)),
               (''lastTimestamp'',
                StringValue (columnTimeText L
                  (datetimeNow (last (inserted L cfg (startLoops (createSchema None)) evs))))),
               (''lastPayload'',
                StringValue (payloadOf (last (inserted L cfg (startLoops (createSchema None)) evs))))]]"
    and "length (rows (entriesTable (run L cfg (startLoops (createSchema None)) evs))) =
           length (inserted L cfg (startLoops (createSchema None)) evs)"
proof -
  let ?init = "startLoops (createSchema None)"
  let ?s = "run L cfg ?init evs"
  let ?ws = "inserted L cfg ?init evs"
  have t0: "rows (entriesTable ?init) = []" "largestRowid (entriesTable ?init) = 0"
    by (simp_all add: startLoops_def createSchema_def largestRowid_def)
  from run_rows [of L cfg ?init evs]
  have r: "rows (entriesTable ?s) = newRows cfg 0 ?ws"
    unfolding t0 by simp
  have ne: "rows (entriesTable ?s) \<noteq> []"
    unfolding r using newRows_length [of cfg 0 ?ws] assms(1) by auto
  have so: "sorted_wrt (<) (map entry_id (rows (entriesTable ?s)))"
    unfolding r by (rule newRows_sorted)
  have la: "last (rows (entriesTable ?s)) = entryOf cfg (int (length ?ws)) (last ?ws)"
    unfolding r using newRows_last [OF assms(1), of cfg 0] by simp
  show "length (rows (entriesTable ?s)) = length ?ws"
    unfolding r by (rule newRows_length)
  have "payload (last (rows (entriesTable ?s))) = Some (payloadOf (last ?ws))"
    unfolding la by (simp add: entryOf_def)
  from readCycle_snapshot [OF ne so this, of L cfg]
  have rc: "readCycle L cfg None (entriesTable ?s) =
      logger cfg LevelInfo ''successful read''
        [(''count'', IntValue 1),
         (''lastPod'', StringValue (podNameEnv cfg)),
         (''lastTimestamp'', StringValue (columnTimeText L (datetimeNow (last ?ws)))),
         (''lastPayload'', StringValue (payloadOf (last ?ws)))]"
    unfolding la by (simp add: entryOf_def)
  have lg: "logged (step L cfg ?s (ReadTick None)) =
      logged ?s @ [readCycle L cfg None (entriesTable ?s)]"
    using assms(2) by simp
  from lg rc show "logged (step L cfg ?s (ReadTick None)) =
           logged ?s @
           [logger cfg LevelInfo ''successful read''
              [(''count'', IntValue 1),
               (''lastPod'', StringValue (podNameEnv cfg)),
               (''lastTimestamp'', StringValue (columnTimeText L (datetimeNow (last ?ws)))),
               (''lastPayload'', StringValue (payloadOf (last ?ws)))]]"
    by simp
qed

lemma readLoop_step: "ev \<noteq> ReadDone \<Longrightarrow> readLoop (step L cfg s ev) = readLoop s"
  by (cases ev) (simp_all split: prod.splits)

lemma readLoop_run: "ReadDone \<notin> set evs \<Longrightarrow> readLoop (run L cfg s evs) = readLoop s"
proof (induction evs arbitrary: s)
  case Nil
  show ?case by (simp add: run_def)
next
  case (Cons ev evs)
  have r: "run L cfg s (ev # evs) = run L cfg (step L cfg s ev) evs" by (simp add: run_def)
  from Cons.prems have "ev \<noteq> ReadDone" "ReadDone \<notin> set evs" by auto
  with Cons.IH [of "step L cfg s ev"] readLoop_step [of ev L cfg s] show ?case
    unfolding r by simp
qed

lemma payloadOf_tick3: "payloadOf tick3 = ''rand=42''"
  by (simp add: payloadOf_def tick3_def fmt_d_def itoa.simps digit_def)

text \<open>
  Claim C6 does not hold of the code. In the run \<open>exampleRun\<close> from a new store two
  inserts succeed (\<open>tick1\<close> and \<open>tick3\<close>) and the table holds two rows; the read
  tick that follows, whose query succeeds, logs the pod, the timestamp and the payload of
  the second insert, but the count 1 and not 2: the outer \<open>SELECT\<close> of the aggregate
  statement has no \<open>FROM entries\<close>, so its \<open>COUNT(*)\<close> does not count the table.
\<close>

theorem aggregate_count_is_one:
  "inserted exampleLib storageConfig (startLoops (createSchema None)) exampleRun = [tick1, tick3] \<and>
   length (rows (entriesTable (run exampleLib storageConfig (startLoops (createSchema None))
     exampleRun))) = 2 \<and>
   readLoop (run exampleLib storageConfig (startLoops (createSchema None)) exampleRun) \<and>
   last (logged (step exampleLib storageConfig (run exampleLib storageConfig
     (startLoops (createSchema None)) exampleRun) (ReadTick None))) =
     \<lparr>level = LevelInfo, msg = ''successful read'',
      attrs = [(''pod_name'', StringValue ''pod-a''), (''count'', IntValue 1),
               (''lastPod'', StringValue ''pod-a''),
               (''lastTimestamp'', StringValue ''2026-11-01T17:31:07Z''),
               (''lastPayload'', StringValue ''rand=42'')]\<rparr>"
proof -
  let ?init = "startLoops (createSchema None)"
  have i: "inserted exampleLib storageConfig ?init exampleRun = [tick1, tick3]"
    by (rule inserted_exampleRun) (simp add: largestRowid_fresh maxRowid_def)
  have ne: "inserted exampleLib storageConfig ?init exampleRun \<noteq> []" unfolding i by simp
  have "readLoop (run exampleLib storageConfig ?init exampleRun) = readLoop ?init"
    by (rule readLoop_run) (simp add: exampleRun_def)
  then have rl: "readLoop (run exampleLib storageConfig ?init exampleRun)"
    by (simp add: startLoops_def)
  note sn = snapshot_after_run [OF ne rl]
  have n: "length (rows (entriesTable (run exampleLib storageConfig ?init exampleRun))) = 2"
    using sn(2) unfolding i by simp
  from sn(1)
  have "last (logged (step exampleLib storageConfig (run exampleLib storageConfig ?init
      exampleRun) (ReadTick None))) =
      logger storageConfig LevelInfo ''successful read''
           [(''count'', IntValue 1),
            (''lastPod'', StringValue (podNameEnv storageConfig)),
            (''lastTimestamp'', StringValue (columnTimeText exampleLib (datetimeNow tick3))),
            (''lastPayload'', StringValue (payloadOf tick3))]"
    unfolding i by simp
  then have "last (logged (step exampleLib storageConfig (run exampleLib storageConfig ?init
      exampleRun) (ReadTick None))) =
     \<lparr>level = LevelInfo, msg = ''successful read'',
      attrs = [(''pod_name'', StringValue ''pod-a''), (''count'', IntValue 1),
               (''lastPod'', StringValue ''pod-a''),
               (''lastTimestamp'', StringValue ''2026-11-01T17:31:07Z''),
               (''lastPayload'', StringValue ''rand=42'')]\<rparr>"
    by (simp add: logger_def storageConfig_fields payloadOf_tick3 columnTimeText_tick3)
  with i n rl show ?thesis by blast
qed

text \<open>
  Claim C8. On an empty table the three subqueries of the aggregate query are NULL, and
  the scan of the first NULL into a string fails. A tick of the running
  read loop then changes nothing but the log, to which it adds exactly one record, the
  error record \<open>read error\<close> carrying the scan error (or the error of the query, had
  the query itself failed): no snapshot is logged. The loop is still running afterwards
  and handles its next tick as any other.
\<close>

theorem empty_table_read_error:
  assumes "rows (entriesTable s) = []" and "readLoop s"
  shows "step L cfg s (ReadTick None) =
           s\<lparr>logged := logged s @
                [logger cfg LevelError ''read error''
                   [(''error'', ErrorValue (scanNullError 1 ''pod''))]]\<rparr> \<and>
         step L cfg s (ReadTick f) = s\<lparr>logged := logged s @ [readCycle L cfg f (entriesTable s)]\<rparr> \<and>
         level (readCycle L cfg f (entriesTable s)) = LevelError \<and>
         msg (readCycle L cfg f (entriesTable s)) = ''read error'' \<and>
         readLoop (step L cfg s (ReadTick f)) \<and>
         logged (step L cfg (step L cfg s (ReadTick f)) (ReadTick f2)) =
           logged (step L cfg s (ReadTick f)) @ [readCycle L cfg f2 (entriesTable s)]"
proof -
  note e = readCycle_empty [OF assms(1), of L cfg]
  have 1: "step L cfg s (ReadTick f) = s\<lparr>logged := logged s @ [readCycle L cfg f (entriesTable s)]\<rparr>"
    for f
    using assms(2) by simp
  have 2: "readLoop (step L cfg s (ReadTick f))" unfolding 1 using assms(2) by simp
  have 3: "logged (step L cfg (step L cfg s (ReadTick f)) (ReadTick f2)) =
           logged (step L cfg s (ReadTick f)) @ [readCycle L cfg f2 (entriesTable s)]"
    unfolding 1 using assms(2) by simp
  from 1 [of None] 1 [of f] 2 3 e show ?thesis by simp
qed

theorem empty_table_read_error_witness:
  "rows (entriesTable (startLoops (createSchema None))) = [] \<and>
   readLoop (startLoops (createSchema None)) \<and>
   logged (step exampleLib storageConfig (startLoops (createSchema None)) (ReadTick None)) =
     [\<lparr>level = LevelError, msg = ''read error'',
       attrs = [(''pod_name'', StringValue ''pod-a''),
                (''error'', ErrorValue (scanNullError 1 ''pod''))]\<rparr>] \<and>
   readLoop (step exampleLib storageConfig (startLoops (createSchema None)) (ReadTick None))"
proof -
  have a: "rows (entriesTable (startLoops (createSchema None))) = []"
    by (simp add: startLoops_def createSchema_def)
  have b: "readLoop (startLoops (createSchema None))" by (simp add: startLoops_def)
  note t = empty_table_read_error [OF a b, of exampleLib storageConfig None None]
  from t have "step exampleLib storageConfig (startLoops (createSchema None)) (ReadTick None) =
      (startLoops (createSchema None))
        \<lparr>logged := logged (startLoops (createSchema None)) @
           [logger storageConfig LevelError ''read error''
              [(''error'', ErrorValue (scanNullError 1 ''pod''))]]\<rparr>"
    by (rule conjunct1)
  then have "logged (step exampleLib storageConfig (startLoops (createSchema None)) (ReadTick None)) =
     [\<lparr>level = LevelError, msg = ''read error'',
       attrs = [(''pod_name'', StringValue ''pod-a''),
                (''error'', ErrorValue (scanNullError 1 ''pod''))]\<rparr>]"
    by (simp add: startLoops_def logger_def storageConfig_fields)
  moreover from t
  have "readLoop (step exampleLib storageConfig (startLoops (createSchema None)) (ReadTick None))"
    by blast
  ultimately show ?thesis using a b by blast
qed


text \<open>
  Cancellation. A write loop that comes to its \<open>select\<close> with the context done
  returns without an insert; once the context is done no event changes the table; loops
  that have returned do nothing more.
\<close>

lemma cancelled_write_returns:
  "ctxDone s \<Longrightarrow> writeLoop s \<Longrightarrow> step L cfg s (WriteSelect i) = s\<lparr>writeLoop := False\<rparr>"
  by simp











end
